theory Spec2Isabelle
  imports Complex_Main "HOL-Library.Sublist" "HOL-Library.AList"
begin

section \<open>Data model\<close>

text \<open>
  Activations and parameters are tensors of float32 numbers in the source. The embedding
  of the sections below computes over exact reals: it describes the function that the
  program approximates, and in it no value overflows and no \<open>NaN\<close> arises from arithmetic.
  The section on float32 special values repeats the forward pass with the overflow, the
  infinities and the \<open>NaN\<close> of float32. A vector is a list, a matrix a list of rows, a
  batch of activations a list of matrices (one \<open>T \<times> C\<close> matrix per batch element).
\<close>

type_synonym vec = "real list"
type_synonym mat = "real list list"
type_synonym tensor3 = "real list list list"

text \<open>Every raise of the source is a value of this type.\<close>

datatype error =
  AssertionError | ZeroDivisionError | IndexError | RuntimeError | ValueError | KeyError

text \<open>
  A two-dimensional tensor of token ids (\<open>torch.long\<close>). The column count is kept
  beside the rows, as \<open>idx.size()\<close> reports it also for a tensor with no rows.
\<close>

record long_tensor2 =
  ncols :: nat
  rows :: "int list list"

definition wf_long_tensor2 :: "long_tensor2 \<Rightarrow> bool" where
  "wf_long_tensor2 t = list_all (\<lambda>r. length r = ncols t) (rows t)"

section \<open>Configuration: \<open>ModelArgs\<close>\<close>

text \<open>
  The fields of \<open>ModelArgs\<close> that the code reads (\<open>multiple_of\<close> and \<open>ffn_dim_multiplier\<close>
  are never read). They are sizes and counts, so natural numbers.
\<close>

record ModelArgs =
  max_seq_len :: nat
  vocab_size :: nat
  n_layers :: nat
  n_heads :: nat
  n_embd :: nat

section \<open>Layers of the numeric library\<close>

text \<open>
  \<open>nn.Linear\<close>: \<open>weight\<close> has one row per output feature; \<open>bias\<close> is absent for
  \<open>bias=False\<close>. The forward map of one vector is \<open>W x + b\<close>.
\<close>

record Linear =
  weight :: mat
  bias :: "vec option"

definition dot :: "vec \<Rightarrow> vec \<Rightarrow> real" where
  "dot u v = (\<Sum>(a, b)\<leftarrow>zip u v. a * b)"

definition Linear_forward :: "Linear \<Rightarrow> vec \<Rightarrow> vec" where
  "Linear_forward l x =
     (case bias l of
        None \<Rightarrow> map (\<lambda>w. dot w x) (weight l)
      | Some b \<Rightarrow> map (\<lambda>(w, c). dot w x + c) (zip (weight l) b))"

text \<open>
  \<open>nn.LayerNorm(n)\<close> over the last axis: biased variance, \<open>eps = 1e-5\<close>, elementwise
  affine parameters \<open>weight\<close> and \<open>bias\<close> (here \<open>ln_weight\<close>, \<open>ln_bias\<close>: the field names of
  \<open>Linear\<close> are taken).
\<close>

record LayerNorm =
  ln_weight :: vec
  ln_bias :: vec

definition mean :: "vec \<Rightarrow> real" where
  "mean x = sum_list x / real (length x)"

definition variance :: "vec \<Rightarrow> real" where
  "variance x = mean (map (\<lambda>a. (a - mean x)\<^sup>2) x)"

definition LayerNorm_forward :: "LayerNorm \<Rightarrow> vec \<Rightarrow> vec" where
  "LayerNorm_forward layer x =
     map (\<lambda>i. (x ! i - mean x) / sqrt (variance x + 1 / 100000) * ln_weight layer ! i + ln_bias layer ! i)
       [0..<length x]"

text \<open>\<open>nn.GELU(approximate="tanh")\<close>.\<close>

definition gelu_tanh :: "real \<Rightarrow> real" where
  "gelu_tanh x = 0.5 * x * (1 + tanh (sqrt (2 / pi) * (x + 0.044715 * x ^ 3)))"

text \<open>
  Attention scores after \<open>masked_fill\<close> hold \<open>float('-inf')\<close> at the masked places.
  \<open>F.softmax\<close> over a row is \<open>exp(a\<^sub>i) / \<Sum>\<^sub>j exp(a\<^sub>j)\<close> with \<open>exp(-inf) = 0\<close>; the library
  subtracts the row maximum first, which leaves the exact value unchanged. A row whose
  entries are all \<open>-inf\<close> (the library yields \<open>NaN\<close> there) does not occur in the attention:
  the mask never covers the diagonal;
  the definition is only used on rows with a finite entry.
\<close>

datatype score = NegInf | Fin real

fun exp_score :: "score \<Rightarrow> real" where
  "exp_score NegInf = 0"
| "exp_score (Fin a) = exp a"

definition softmax :: "score list \<Rightarrow> vec" where
  "softmax r = map (\<lambda>a. exp_score a / (\<Sum>b\<leftarrow>r. exp_score b)) r"

text \<open>
  A scalar result of this exact-real embedding: \<open>Exact r\<close> is the real number that the
  expression denotes, \<open>NaN\<close> the value the library returns for a mean over no element at
  all. Whether the float32 program can represent \<open>r\<close> (it overflows to \<open>inf\<close> beyond the
  largest float) is not part of this type; see the float32 section.
\<close>

datatype scalar = NaN | Exact real

text \<open>
  \<open>F.cross_entropy(input, target)\<close> with its defaults (\<open>reduction='mean'\<close>,
  \<open>ignore_index=-100\<close>): \<open>input\<close> is \<open>N \<times> C\<close>, \<open>target\<close> holds \<open>N\<close> class indices. The
  token-level loss is \<open>- log (softmax z)[y]\<close>. This is the exact-real value of the mean; the
  float32 value, which can be \<open>inf\<close>, is \<open>cross_entropy_f32\<close> below.
\<close>

definition nll :: "vec \<Rightarrow> nat \<Rightarrow> real" where
  "nll z y = - ln (exp (z ! y) / (\<Sum>a\<leftarrow>z. exp a))"

definition cross_entropy :: "nat \<Rightarrow> mat \<Rightarrow> int list \<Rightarrow> error + scalar" where
  "cross_entropy C inp target =
     (if length inp \<noteq> length target then Inl ValueError
      else if \<not> list_all (\<lambda>y. y = - 100 \<or> (0 \<le> y \<and> y < int C)) target then Inl IndexError
      else let kept = filter (\<lambda>(z, y). y \<noteq> - 100) (zip inp target)
           in if kept = [] then Inr NaN
              else Inr (Exact ((\<Sum>(z, y)\<leftarrow>kept. nll z (nat y)) / real (length kept))))"

section \<open>\<open>CausalSelfAttention\<close>\<close>

text \<open>
  The constructor, as far as it can fail: \<open>n_embd // n_heads\<close>, the two assertions, and
  the initialisation \<open>std = alpha * (1 / n_embd) ** 0.5\<close> of the two projections. A
  successful construction yields the module's \<open>head_dim\<close>.
\<close>

definition CausalSelfAttention_init :: "ModelArgs \<Rightarrow> error + nat" where
  "CausalSelfAttention_init config =
     (if n_heads config = 0 then Inl ZeroDivisionError
      else let head_dim = n_embd config div n_heads config
           in if head_dim * n_heads config \<noteq> n_embd config then Inl AssertionError
              else if n_embd config mod n_heads config \<noteq> 0 then Inl AssertionError
              else if n_embd config = 0 then Inl ZeroDivisionError
              else Inr head_dim)"

record CausalSelfAttention =
  c_attn :: Linear
  c_proj :: Linear

text \<open>The buffer \<open>bias = tril(ones(L, L))\<close>.\<close>

definition tril_ones :: "nat \<Rightarrow> mat" where
  "tril_ones n = map (\<lambda>i. map (\<lambda>j. if j \<le> i then 1 else 0) [0..<n]) [0..<n]"

text \<open>
  The mask \<open>self.bias[:,:,:T,:T] == 0\<close> as \<open>masked_fill\<close> uses it on a \<open>T \<times> T\<close> score matrix:
  the slice has \<open>min T L\<close> rows and columns; a \<open>1 \<times> 1\<close> slice is broadcast; any other size
  that is not \<open>T \<times> T\<close> is a shape error.
\<close>

definition attn_mask :: "nat \<Rightarrow> nat \<Rightarrow> error + bool list list" where
  "attn_mask L T =
     (let m = map (\<lambda>r. map (\<lambda>v. v = 0) (take T r)) (take T (tril_ones L))
      in if length m = T then Inr m
         else if length m = 1 then Inr (replicate T (replicate T (m ! 0 ! 0)))
         else Inl RuntimeError)"

definition masked_fill :: "mat \<Rightarrow> bool list list \<Rightarrow> score list list" where
  "masked_fill att msk =
     map (\<lambda>i. map (\<lambda>j. if msk ! i ! j then NegInf else Fin (att ! i ! j)) [0..<length (att ! i)])
       [0..<length att]"

text \<open>
  \<open>view(B, T, nh, hs).transpose(1, 2)\<close> for one batch element: head \<open>h\<close> holds the columns
  \<open>h*hs .. h*hs + hs - 1\<close> of every row.
\<close>

definition split_heads :: "nat \<Rightarrow> nat \<Rightarrow> 'a list list \<Rightarrow> 'a list list list" where
  "split_heads nh hs m = map (\<lambda>h. map (\<lambda>r. take hs (drop (h * hs) r)) m) [0..<nh]"

text \<open>\<open>(q @ k.transpose(-2, -1)) * (1.0 / math.sqrt(hs))\<close>: entry \<open>(i, j)\<close> is \<open>q\<^sub>i \<cdot> k\<^sub>j\<close>, scaled.\<close>

definition attention_scores :: "nat \<Rightarrow> mat \<Rightarrow> mat \<Rightarrow> mat" where
  "attention_scores hs q k = map (\<lambda>qi. map (\<lambda>kj. dot qi kj * (1 / sqrt (real hs))) k) q"

text \<open>\<open>a @ b\<close> for \<open>a\<close> with \<open>length b\<close> columns and \<open>b\<close> with \<open>m\<close> columns.\<close>

definition matmul :: "nat \<Rightarrow> mat \<Rightarrow> mat \<Rightarrow> mat" where
  "matmul m a b = map (\<lambda>r. map (\<lambda>c. (\<Sum>j\<leftarrow>[0..<length b]. r ! j * b ! j ! c)) [0..<m]) a"

text \<open>
  \<open>y.transpose(1, 2).contiguous().view(B, T, C)\<close> for one batch element: row \<open>t\<close> is the
  concatenation of the heads' rows \<open>t\<close>.
\<close>

definition merge_heads :: "nat \<Rightarrow> 'a list list list \<Rightarrow> 'a list list" where
  "merge_heads T y = map (\<lambda>t. concat (map (\<lambda>yh. yh ! t) y)) [0..<T]"

text \<open>
  The post-softmax \<open>att\<close> of one batch element \<open>x\<close> (a \<open>T \<times> C\<close> matrix), one \<open>T \<times> T\<close> matrix
  per head. \<open>c_attn\<close> accepts only rows of width \<open>n_embd\<close>, so \<open>C = n_embd\<close>. Then the
  output \<open>c_proj (merge (att @ v))\<close>. Both are over exact reals, where a masked weight \<open>0\<close>
  cancels the value it multiplies; in float32 the product \<open>0 * inf\<close> is \<open>NaN\<close>, see
  \<open>attention_one_f32\<close> below.
\<close>

definition attention_att ::
  "ModelArgs \<Rightarrow> CausalSelfAttention \<Rightarrow> bool list list \<Rightarrow> mat \<Rightarrow> mat list" where
  "attention_att cfg a msk x =
     (let C = n_embd cfg; nh = n_heads cfg; hs = C div nh;
          qkv = map (Linear_forward (c_attn a)) x;
          q = map (take C) qkv;
          k = map (\<lambda>r. take C (drop C r)) qkv;
          qh = split_heads nh hs q;
          kh = split_heads nh hs k
      in map (\<lambda>h. map softmax (masked_fill (attention_scores hs (qh ! h) (kh ! h)) msk)) [0..<nh])"

definition attention_one ::
  "ModelArgs \<Rightarrow> CausalSelfAttention \<Rightarrow> bool list list \<Rightarrow> mat \<Rightarrow> mat" where
  "attention_one cfg a msk x =
     (let C = n_embd cfg; nh = n_heads cfg; hs = C div nh;
          qkv = map (Linear_forward (c_attn a)) x;
          v = map (\<lambda>r. take C (drop (2 * C) r)) qkv;
          vh = split_heads nh hs v;
          att = attention_att cfg a msk x;
          y = map (\<lambda>h. matmul hs (att ! h) (vh ! h)) [0..<nh]
      in map (Linear_forward (c_proj a)) (merge_heads (length x) y))"

text \<open>
  \<open>CausalSelfAttention.forward\<close> on a batch \<open>x\<close> of shape \<open>B \<times> T \<times> C\<close>. The raises, in the
  order of the source: \<open>C // self.n_heads\<close>, the \<open>view\<close> (the element count must be
  \<open>B*T*nh*hs\<close>), \<open>1.0 / math.sqrt(hs)\<close>, and the broadcast of the mask.
\<close>

definition CausalSelfAttention_forward ::
  "ModelArgs \<Rightarrow> CausalSelfAttention \<Rightarrow> nat \<Rightarrow> tensor3 \<Rightarrow> error + tensor3" where
  "CausalSelfAttention_forward cfg a T x =
     (let B = length x; C = n_embd cfg
      in if n_heads cfg = 0 then Inl ZeroDivisionError
         else if B * T * (n_heads cfg * (C div n_heads cfg)) \<noteq> B * T * C then Inl RuntimeError
         else if C div n_heads cfg = 0 then Inl ZeroDivisionError
         else case attn_mask (max_seq_len cfg) T of
                Inl e \<Rightarrow> Inl e
              | Inr msk \<Rightarrow> Inr (map (attention_one cfg a msk) x))"

section \<open>\<open>FeedForward\<close>\<close>

text \<open>The two projections \<open>c_fc\<close> and \<open>c_proj\<close> (here \<open>mlp_c_proj\<close>); \<open>gelu\<close> has no parameter.\<close>

record FeedForward =
  c_fc :: Linear
  mlp_c_proj :: Linear

definition FeedForward_forward :: "FeedForward \<Rightarrow> tensor3 \<Rightarrow> tensor3" where
  "FeedForward_forward m x =
     (let x1 = map (map (Linear_forward (c_fc m))) x;
          x2 = map (map (map gelu_tanh)) x1;
          x3 = map (map (Linear_forward (mlp_c_proj m))) x2
      in x3)"

section \<open>\<open>TransformerBlock\<close>\<close>

definition TransformerBlock_init :: "ModelArgs \<Rightarrow> error + nat" where
  "TransformerBlock_init config =
     (if n_heads config = 0 then Inl ZeroDivisionError
      else CausalSelfAttention_init config)"

record TransformerBlock =
  ln_1 :: LayerNorm
  attn :: CausalSelfAttention
  ln_2 :: LayerNorm
  mlp :: FeedForward

definition tensor_add :: "tensor3 \<Rightarrow> tensor3 \<Rightarrow> tensor3" where
  "tensor_add x y = map (\<lambda>(xb, yb). map (\<lambda>(xr, yr). map (\<lambda>(a, b). a + b) (zip xr yr)) (zip xb yb)) (zip x y)"

definition TransformerBlock_forward ::
  "ModelArgs \<Rightarrow> TransformerBlock \<Rightarrow> nat \<Rightarrow> tensor3 \<Rightarrow> error + tensor3" where
  "TransformerBlock_forward cfg blk T x =
     (case CausalSelfAttention_forward cfg (attn blk) T (map (map (LayerNorm_forward (ln_1 blk))) x) of
        Inl e \<Rightarrow> Inl e
      | Inr a \<Rightarrow>
          let x1 = tensor_add x a
          in Inr (tensor_add x1
                   (FeedForward_forward (mlp blk) (map (map (LayerNorm_forward (ln_2 blk))) x1))))"

section \<open>\<open>Transformer\<close>\<close>

text \<open>
  The constructor builds \<open>n_layers\<close> blocks in turn; the first failure ends it. A successful
  construction yields the \<open>head_dim\<close> of every block's attention module.
\<close>

fun init_blocks :: "ModelArgs \<Rightarrow> nat \<Rightarrow> error + nat list" where
  "init_blocks config 0 = Inr []"
| "init_blocks config (Suc n) =
     (case TransformerBlock_init config of
        Inl e \<Rightarrow> Inl e
      | Inr d \<Rightarrow> (case init_blocks config n of Inl e \<Rightarrow> Inl e | Inr ds \<Rightarrow> Inr (d # ds)))"

definition Transformer_init :: "ModelArgs \<Rightarrow> error + nat list" where
  "Transformer_init config = init_blocks config (n_layers config)"

text \<open>
  The parameters: \<open>transformer.wte\<close> and \<open>transformer.wpe\<close> (the embedding tables, one row
  per index), \<open>transformer.h\<close>, \<open>transformer.ln_f\<close> and \<open>lm_head\<close>.
\<close>

record Transformer =
  wte :: mat
  wpe :: mat
  transformer_h :: "TransformerBlock list"
  ln_f :: LayerNorm
  lm_head :: Linear

text \<open>The shapes the constructor gives the parameters; no later step changes a shape.\<close>

definition wf_mat :: "nat \<Rightarrow> nat \<Rightarrow> mat \<Rightarrow> bool" where
  "wf_mat r c m = (length m = r \<and> list_all (\<lambda>row. length row = c) m)"

definition wf_Linear :: "nat \<Rightarrow> nat \<Rightarrow> bool \<Rightarrow> Linear \<Rightarrow> bool" where
  "wf_Linear n_in n_out has_bias l =
     (wf_mat n_out n_in (weight l) \<and>
      (case bias l of None \<Rightarrow> \<not> has_bias | Some b \<Rightarrow> has_bias \<and> length b = n_out))"

definition wf_LayerNorm :: "nat \<Rightarrow> LayerNorm \<Rightarrow> bool" where
  "wf_LayerNorm n layer = (length (ln_weight layer) = n \<and> length (ln_bias layer) = n)"

definition wf_TransformerBlock :: "ModelArgs \<Rightarrow> TransformerBlock \<Rightarrow> bool" where
  "wf_TransformerBlock cfg blk =
     (wf_LayerNorm (n_embd cfg) (ln_1 blk) \<and>
      wf_Linear (n_embd cfg) (3 * n_embd cfg) True (c_attn (attn blk)) \<and>
      wf_Linear (n_embd cfg) (n_embd cfg) True (c_proj (attn blk)) \<and>
      wf_LayerNorm (n_embd cfg) (ln_2 blk) \<and>
      wf_Linear (n_embd cfg) (4 * n_embd cfg) True (c_fc (mlp blk)) \<and>
      wf_Linear (4 * n_embd cfg) (n_embd cfg) True (mlp_c_proj (mlp blk)))"

definition wf_Transformer :: "ModelArgs \<Rightarrow> Transformer \<Rightarrow> bool" where
  "wf_Transformer cfg m =
     (wf_mat (vocab_size cfg) (n_embd cfg) (wte m) \<and>
      wf_mat (max_seq_len cfg) (n_embd cfg) (wpe m) \<and>
      length (transformer_h m) = n_layers cfg \<and>
      list_all (wf_TransformerBlock cfg) (transformer_h m) \<and>
      wf_LayerNorm (n_embd cfg) (ln_f m) \<and>
      wf_Linear (n_embd cfg) (vocab_size cfg) False (lm_head m))"

text \<open>The loop \<open>for block in self.transformer.h: x = block(x)\<close>.\<close>

fun blocks_forward ::
  "ModelArgs \<Rightarrow> TransformerBlock list \<Rightarrow> nat \<Rightarrow> tensor3 \<Rightarrow> error + tensor3" where
  "blocks_forward cfg [] T x = Inr x"
| "blocks_forward cfg (blk # blks) T x =
     (case TransformerBlock_forward cfg blk T x of
        Inl e \<Rightarrow> Inl e
      | Inr x' \<Rightarrow> blocks_forward cfg blks T x')"

text \<open>
  \<open>nn.Embedding\<close> raises on an index outside its table: an \<open>IndexError\<close>, and a
  \<open>RuntimeError\<close> when the table has no row at all.
\<close>

definition valid_ids :: "nat \<Rightarrow> int list list \<Rightarrow> bool" where
  "valid_ids n rs = list_all (list_all (\<lambda>t. 0 \<le> t \<and> t < int n)) rs"

text \<open>
  \<open>Transformer.forward(idx, targets)\<close>. \<open>idx\<close> has shape \<open>B \<times> T\<close>; \<open>wpe(pos)\<close> looks up the
  positions \<open>0 .. T-1\<close>, \<open>wte(idx)\<close> every token; their sum broadcasts the positions over the
  batch. With targets, \<open>logits.view(-1, V)\<close> and \<open>targets.view(-1)\<close> flatten batch and time
  (the first cannot infer its \<open>-1\<close> when \<open>V = 0\<close>).
\<close>

definition Transformer_forward ::
  "ModelArgs \<Rightarrow> Transformer \<Rightarrow> long_tensor2 \<Rightarrow> long_tensor2 option \<Rightarrow>
   error + (tensor3 \<times> scalar option)" where
  "Transformer_forward cfg m idx targets =
     (let T = ncols idx
      in if \<not> T \<le> max_seq_len cfg then Inl AssertionError
         else if \<not> T \<le> length (wpe m) then Inl IndexError
         else if \<not> valid_ids (length (wte m)) (rows idx)
              then Inl (if wte m = [] then RuntimeError else IndexError)
         else let x = map (\<lambda>r. map (\<lambda>t. map (\<lambda>(a, b). a + b) (zip (wte m ! nat (r ! t)) (wpe m ! t)))
                                [0..<T]) (rows idx)
              in case blocks_forward cfg (transformer_h m) T x of
                   Inl e \<Rightarrow> Inl e
                 | Inr x' \<Rightarrow>
                     let x'' = map (map (LayerNorm_forward (ln_f m))) x';
                         logits = map (map (Linear_forward (lm_head m))) x'';
                         V = length (weight (lm_head m))
                     in (case targets of
                           None \<Rightarrow> Inr (logits, None)
                         | Some tg \<Rightarrow>
                             if V = 0 then Inl RuntimeError
                             else (case cross_entropy V (concat logits) (concat (rows tg)) of
                                     Inl e \<Rightarrow> Inl e
                                   | Inr l \<Rightarrow> Inr (logits, Some l))))"

section \<open>Corpus batcher: \<open>DataLoaderLite\<close>\<close>

text \<open>
  The fields \<open>B\<close>, \<open>T\<close> (here \<open>loader_B\<close>, \<open>loader_T\<close>), \<open>tokens\<close> and \<open>current_position\<close> of the
  class. The constructor reads and tokenizes the corpus file (external); the token stream
  is a parameter of the constructor here.
\<close>

record DataLoaderLite =
  loader_B :: nat
  loader_T :: nat
  tokens :: "int list"
  current_position :: nat

text \<open>
  \<open>__init__\<close>: after the tokens are loaded it prints \<open>len(self.tokens) // (B * T)\<close>, which
  raises when \<open>B * T = 0\<close>; only then is the cursor set, so a loader exists for
  \<open>B * T \<ge> 1\<close> only.
\<close>

definition DataLoaderLite_init :: "nat \<Rightarrow> nat \<Rightarrow> int list \<Rightarrow> error + DataLoaderLite" where
  "DataLoaderLite_init b t toks =
     (if b * t = 0 then Inl ZeroDivisionError
      else Inr \<lparr>loader_B = b, loader_T = t, tokens = toks, current_position = 0\<rparr>)"

text \<open>
  \<open>buf.view(B, T)\<close> on a one-dimensional tensor: row \<open>i\<close> holds the elements
  \<open>i*T .. i*T + T - 1\<close>; it raises when the element count is not \<open>B * T\<close>.
\<close>

definition view2 :: "nat \<Rightarrow> nat \<Rightarrow> int list \<Rightarrow> error + long_tensor2" where
  "view2 b t xs =
     (if length xs = b * t
      then Inr \<lparr>ncols = t, rows = map (\<lambda>i. take t (drop (i * t) xs)) [0..<b]\<rparr>
      else Inl RuntimeError)"

text \<open>
  \<open>next_batch\<close>: the slice \<open>tokens[p : p + B*T + 1]\<close> is \<open>take (B*T+1) (drop p tokens)\<close>
  (a Python slice is clamped to the sequence), \<open>buf[:-1]\<close> is \<open>butlast\<close> and \<open>buf[1:]\<close> is
  \<open>tl\<close>. The cursor is updated after both views, so a failing view leaves it as it was.
\<close>

definition next_batch ::
  "DataLoaderLite \<Rightarrow> error + ((long_tensor2 \<times> long_tensor2) \<times> DataLoaderLite)" where
  "next_batch s =
     (let b = loader_B s; t = loader_T s;
          buf = take (b * t + 1) (drop (current_position s) (tokens s))
      in case view2 b t (butlast buf) of
           Inl e \<Rightarrow> Inl e
         | Inr x \<Rightarrow>
             (case view2 b t (tl buf) of
                Inl e \<Rightarrow> Inl e
              | Inr y \<Rightarrow>
                  let pos = current_position s + b * t;
                      pos' = (if pos + (b * t + 1) > length (tokens s) then 0 else pos)
                  in Inr ((x, y), s\<lparr>current_position := pos'\<rparr>)))"

text \<open>The training loop calls \<open>next_batch\<close> repeatedly; an exception ends the run.\<close>

fun next_batches ::
  "nat \<Rightarrow> DataLoaderLite \<Rightarrow> error + ((long_tensor2 \<times> long_tensor2) list \<times> DataLoaderLite)" where
  "next_batches 0 s = Inr ([], s)"
| "next_batches (Suc n) s =
     (case next_batch s of
        Inl e \<Rightarrow> Inl e
      | Inr (xy, s') \<Rightarrow>
          (case next_batches n s' of
             Inl e \<Rightarrow> Inl e
           | Inr (xys, s'') \<Rightarrow> Inr (xy # xys, s'')))"

text \<open>The cursor invariant: the next read of \<open>B*T + 1\<close> tokens is inside the stream.\<close>

definition cursor_in_bounds :: "DataLoaderLite \<Rightarrow> bool" where
  "cursor_in_bounds s =
     (current_position s + loader_B s * loader_T s + 1 \<le> length (tokens s))"

definition batch_shape_ok :: "nat \<Rightarrow> nat \<Rightarrow> long_tensor2 \<Rightarrow> bool" where
  "batch_shape_ok b t x = (ncols x = t \<and> length (rows x) = b \<and> wf_long_tensor2 x)"

section \<open>Example inputs\<close>

text \<open>
  A small configuration with two heads of size one, and a model of exactly the shapes its
  constructor builds; the concrete instances of the theorems below are stated on them.
\<close>

definition example_config :: ModelArgs where
  "example_config = \<lparr>max_seq_len = 2, vocab_size = 3, n_layers = 1, n_heads = 2, n_embd = 2\<rparr>"

definition example_norm :: LayerNorm where
  "example_norm = \<lparr>ln_weight = [1, 1], ln_bias = [0, 0]\<rparr>"

definition example_block :: TransformerBlock where
  "example_block =
     \<lparr>ln_1 = example_norm,
      attn = \<lparr>c_attn = \<lparr>weight = [[1, 0], [0, 1], [1, 1], [1, - 1], [0, 1], [1, 0]],
                        bias = Some [0, 0, 0, 0, 0, 0]\<rparr>,
              c_proj = \<lparr>weight = [[1, 0], [0, 1]], bias = Some [0, 0]\<rparr>\<rparr>,
      ln_2 = example_norm,
      mlp = \<lparr>c_fc = \<lparr>weight = [[1, 0], [0, 1], [1, 1], [1, - 1], [1, 0], [0, 1], [1, 1], [1, - 1]],
                     bias = Some [0, 0, 0, 0, 0, 0, 0, 0]\<rparr>,
             mlp_c_proj = \<lparr>weight = [[1, 0, 0, 0, 1, 0, 0, 0], [0, 1, 0, 0, 0, 1, 0, 0]],
                           bias = Some [0, 0]\<rparr>\<rparr>\<rparr>"

definition example_model :: Transformer where
  "example_model =
     \<lparr>wte = [[1, 0], [0, 1], [1, 1]],
      wpe = [[0, 0], [1, 1]],
      transformer_h = [example_block],
      ln_f = example_norm,
      lm_head = \<lparr>weight = [[1, 0], [0, 1], [1, 1]], bias = None\<rparr>\<rparr>"

section \<open>Per-position views of the attention computation\<close>

text \<open>
  Names for the pieces that \<open>attention_att\<close> and \<open>attention_one\<close> compute from a single row
  of the input: the query, key and value vectors of head \<open>h\<close>, and the scaled score of a
  query row against a key row. They only abbreviate terms of the definitions above.
\<close>

definition attn_q :: "ModelArgs \<Rightarrow> CausalSelfAttention \<Rightarrow> nat \<Rightarrow> vec \<Rightarrow> vec" where
  "attn_q cfg a h xr =
     take (n_embd cfg div n_heads cfg) (drop (h * (n_embd cfg div n_heads cfg))
       (take (n_embd cfg) (Linear_forward (c_attn a) xr)))"

definition attn_k :: "ModelArgs \<Rightarrow> CausalSelfAttention \<Rightarrow> nat \<Rightarrow> vec \<Rightarrow> vec" where
  "attn_k cfg a h xr =
     take (n_embd cfg div n_heads cfg) (drop (h * (n_embd cfg div n_heads cfg))
       (take (n_embd cfg) (drop (n_embd cfg) (Linear_forward (c_attn a) xr))))"

definition attn_v :: "ModelArgs \<Rightarrow> CausalSelfAttention \<Rightarrow> nat \<Rightarrow> vec \<Rightarrow> vec" where
  "attn_v cfg a h xr =
     take (n_embd cfg div n_heads cfg) (drop (h * (n_embd cfg div n_heads cfg))
       (take (n_embd cfg) (drop (2 * n_embd cfg) (Linear_forward (c_attn a) xr))))"

definition attn_score :: "ModelArgs \<Rightarrow> CausalSelfAttention \<Rightarrow> nat \<Rightarrow> vec \<Rightarrow> vec \<Rightarrow> real" where
  "attn_score cfg a h xi xj =
     dot (attn_q cfg a h xi) (attn_k cfg a h xj) * (1 / sqrt (real (n_embd cfg div n_heads cfg)))"

text \<open>The causal mask on \<open>T\<close> positions: entry \<open>(i, j)\<close> is masked exactly when \<open>i < j\<close>.\<close>

definition causal_mask :: "nat \<Rightarrow> bool list list" where
  "causal_mask T = map (\<lambda>i. map (\<lambda>j. i < j) [0..<T]) [0..<T]"

text \<open>
  Row \<open>t\<close> of \<open>att @ v\<close> for head \<open>h\<close>: the values of all positions, weighted by row \<open>t\<close> of
  the post-softmax \<open>att\<close>.
\<close>

definition attn_head_row ::
  "ModelArgs \<Rightarrow> CausalSelfAttention \<Rightarrow> bool list list \<Rightarrow> mat \<Rightarrow> nat \<Rightarrow> nat \<Rightarrow> vec" where
  "attn_head_row cfg a msk x h t =
     map (\<lambda>c. (\<Sum>j\<leftarrow>[0..<length x]. attention_att cfg a msk x ! h ! t ! j * attn_v cfg a h (x ! j) ! c))
       [0..<n_embd cfg div n_heads cfg]"

section \<open>Per-sequence views of the forward pass\<close>

text \<open>
  Every batch element goes through the forward pass on its own. These functions are what
  \<open>TransformerBlock.forward\<close> and \<open>Transformer.forward\<close> compute for one sequence when no
  raise occurs; the theorems relate them to the batch functions above.
\<close>

definition seq_add :: "mat \<Rightarrow> mat \<Rightarrow> mat" where
  "seq_add xb yb = map (\<lambda>(xr, yr). map (\<lambda>(a, b). a + b) (zip xr yr)) (zip xb yb)"

definition mlp_row :: "FeedForward \<Rightarrow> vec \<Rightarrow> vec" where
  "mlp_row f r = Linear_forward (mlp_c_proj f) (map gelu_tanh (Linear_forward (c_fc f) r))"

definition block_seq :: "ModelArgs \<Rightarrow> TransformerBlock \<Rightarrow> mat \<Rightarrow> mat" where
  "block_seq cfg blk xb =
     (let x1 = seq_add xb (attention_one cfg (attn blk) (causal_mask (length xb))
                            (map (LayerNorm_forward (ln_1 blk)) xb))
      in seq_add x1 (map (mlp_row (mlp blk)) (map (LayerNorm_forward (ln_2 blk)) x1)))"

fun blocks_seq :: "ModelArgs \<Rightarrow> TransformerBlock list \<Rightarrow> mat \<Rightarrow> mat" where
  "blocks_seq cfg [] xb = xb"
| "blocks_seq cfg (blk # blks) xb = blocks_seq cfg blks (block_seq cfg blk xb)"

definition embed_seq :: "Transformer \<Rightarrow> int list \<Rightarrow> mat" where
  "embed_seq m r =
     map (\<lambda>t. map (\<lambda>(a, b). a + b) (zip (wte m ! nat (r ! t)) (wpe m ! t))) [0..<length r]"

definition logits_seq :: "ModelArgs \<Rightarrow> Transformer \<Rightarrow> int list \<Rightarrow> mat" where
  "logits_seq cfg m r =
     map (Linear_forward (lm_head m))
       (map (LayerNorm_forward (ln_f m)) (blocks_seq cfg (transformer_h m) (embed_seq m r)))"

text \<open>
  What a successful construction guarantees about the head sizes (see
  \<open>CausalSelfAttention_init\<close>): the checks of \<open>CausalSelfAttention.forward\<close> that depend on
  the configuration alone then pass.
\<close>

definition heads_ok :: "ModelArgs \<Rightarrow> bool" where
  "heads_ok cfg =
     (n_heads cfg \<noteq> 0 \<and> n_heads cfg * (n_embd cfg div n_heads cfg) = n_embd cfg \<and>
      n_embd cfg div n_heads cfg \<noteq> 0)"

section \<open>Pretrained-weight importer: \<open>Transformer.from_pretrained\<close>\<close>

text \<open>
  A parameter tensor: its shape and its values in row-major order. A state dict is an
  ordered dictionary from parameter names to tensors, kept as an association list.
\<close>

record tensor =
  shape :: "nat list"
  data :: "real list"

type_synonym state_dict = "(string \<times> tensor) list"

definition endswith :: "string \<Rightarrow> string \<Rightarrow> bool" where
  "endswith k w = suffix w k"

definition transposed :: "string list" where
  "transposed = [''attn.c_attn.weight'', ''attn.c_proj.weight'', ''mlp.c_fc.weight'', ''mlp.c_proj.weight'']"

text \<open>
  \<open>tensor.t()\<close>: the transpose of a matrix; a tensor of fewer dimensions is returned as it
  is, one of more dimensions raises.
\<close>

definition tensor_t :: "tensor \<Rightarrow> error + tensor" where
  "tensor_t a =
     (case shape a of
        [] \<Rightarrow> Inr a
      | [n] \<Rightarrow> Inr a
      | [r, c] \<Rightarrow>
          Inr \<lparr>shape = [c, r],
               data = concat (map (\<lambda>j. map (\<lambda>i. data a ! (i * c + j)) [0..<r]) [0..<c])\<rparr>
      | _ \<Rightarrow> Inl RuntimeError)"

text \<open>
  \<open>dst.copy_(src)\<close> under \<open>torch.no_grad()\<close>: the destination keeps its shape (equal to the
  source's wherever the importer calls it) and takes the source's values.
\<close>

definition tensor_copy :: "tensor \<Rightarrow> tensor \<Rightarrow> tensor" where
  "tensor_copy dst src = dst\<lparr>data := data src\<rparr>"

text \<open>
  The loop \<open>for k in sd_keys_hf\<close>. \<open>sd\<close> aliases the model's parameters, so each
  \<open>sd[k].copy_(...)\<close> updates the model at once. The loop returns the store as it stands when
  it ends, together with the exception that ended it, if any.
\<close>

fun copy_params :: "state_dict \<Rightarrow> string list \<Rightarrow> state_dict \<Rightarrow> state_dict \<times> error option" where
  "copy_params sd_hf [] sd = (sd, None)"
| "copy_params sd_hf (k # ks) sd =
     (case map_of sd_hf k of
        None \<Rightarrow> (sd, Some KeyError)
      | Some src \<Rightarrow>
          (case map_of sd k of
             None \<Rightarrow> (sd, Some KeyError)
           | Some dst \<Rightarrow>
               if list_ex (\<lambda>w. endswith k w) transposed
               then if rev (shape src) \<noteq> shape dst then (sd, Some AssertionError)
                    else (case tensor_t src of
                            Inl e \<Rightarrow> (sd, Some e)
                          | Inr st \<Rightarrow> copy_params sd_hf ks (AList.update k (tensor_copy dst st) sd))
               else if shape src \<noteq> shape dst then (sd, Some AssertionError)
                    else copy_params sd_hf ks (AList.update k (tensor_copy dst src) sd)))"

text \<open>
  \<open>from_pretrained(model_type)\<close>. The state dict \<open>sd\<close> of the freshly constructed model of
  the preset and the state dict \<open>sd_hf\<close> of the downloaded checkpoint come from outside and
  are parameters. An exception leaves the caller without a model: the model is local to
  the method.
\<close>

definition from_pretrained :: "string \<Rightarrow> state_dict \<Rightarrow> state_dict \<Rightarrow> error + state_dict" where
  "from_pretrained model_type sd sd_hf =
     (if model_type \<notin> set [''gpt2'', ''gpt2-medium'', ''gpt2-large'', ''gpt2-xl'']
      then Inl AssertionError
      else let sd_keys = filter (\<lambda>k. \<not> endswith k ''.attn.bias'') (map fst sd);
               sd_keys_hf0 = filter (\<lambda>k. \<not> endswith k ''.attn.masked_bias'') (map fst sd_hf);
               sd_keys_hf = filter (\<lambda>k. \<not> endswith k ''.attn.bias'') sd_keys_hf0
           in if length sd_keys_hf \<noteq> length sd_keys then Inl AssertionError
              else (case copy_params sd_hf sd_keys_hf sd of
                      (sd', Some e) \<Rightarrow> Inl e
                    | (sd', None) \<Rightarrow> Inr sd'))"

text \<open>
  Names used in the statements about the importer: the parameter names of the model and
  of the checkpoint after the mask buffers are dropped, the test of the transpose rule,
  and what it means for one name to be importable (present on both sides, with shapes
  that agree after the transpose rule).
\<close>

definition model_keys :: "state_dict \<Rightarrow> string list" where
  "model_keys sd = filter (\<lambda>k. \<not> endswith k ''.attn.bias'') (map fst sd)"

definition checkpoint_keys :: "state_dict \<Rightarrow> string list" where
  "checkpoint_keys sd_hf =
     filter (\<lambda>k. \<not> endswith k ''.attn.bias'')
       (filter (\<lambda>k. \<not> endswith k ''.attn.masked_bias'') (map fst sd_hf))"

definition is_transposed :: "string \<Rightarrow> bool" where
  "is_transposed k = list_ex (\<lambda>w. endswith k w) transposed"

definition importable :: "state_dict \<Rightarrow> state_dict \<Rightarrow> string \<Rightarrow> bool" where
  "importable sd sd_hf k =
     (case (map_of sd_hf k, map_of sd k) of
        (Some src, Some dst) \<Rightarrow>
          if is_transposed k then rev (shape src) = shape dst \<and> length (shape src) \<le> 2
          else shape src = shape dst
      | _ \<Rightarrow> False)"

text \<open>
  The tensor that the import leaves under a name: the destination with the values of the
  source, transposed where the transpose rule applies.
\<close>

definition imported :: "state_dict \<Rightarrow> state_dict \<Rightarrow> string \<Rightarrow> tensor option" where
  "imported sd sd_hf k =
     (case (map_of sd_hf k, map_of sd k) of
        (Some src, Some dst) \<Rightarrow>
          if is_transposed k
          then (case tensor_t src of Inl e \<Rightarrow> None | Inr st \<Rightarrow> Some (tensor_copy dst st))
          else Some (tensor_copy dst src)
      | _ \<Rightarrow> None)"

text \<open>
  The parameter names of the model's state dict, from the attribute names of the modules:
  those of a block under the prefix \<open>p\<close> (\<open>transformer.h.<i>.\<close>), and those outside the
  blocks.
\<close>

definition block_param_names :: "string \<Rightarrow> string list" where
  "block_param_names p =
     map (\<lambda>n. p @ n)
       [''ln_1.weight'', ''ln_1.bias'',
        ''attn.c_attn.weight'', ''attn.c_attn.bias'', ''attn.c_proj.weight'', ''attn.c_proj.bias'',
        ''ln_2.weight'', ''ln_2.bias'',
        ''mlp.c_fc.weight'', ''mlp.c_fc.bias'', ''mlp.c_proj.weight'', ''mlp.c_proj.bias'']"

definition top_param_names :: "string list" where
  "top_param_names =
     [''transformer.wte.weight'', ''transformer.wpe.weight'',
      ''transformer.ln_f.weight'', ''transformer.ln_f.bias'', ''lm_head.weight'']"

definition example_sd :: state_dict where
  "example_sd =
     [(''transformer.wte.weight'', \<lparr>shape = [2, 2], data = [0, 0, 0, 0]\<rparr>),
      (''transformer.h.0.attn.c_attn.weight'', \<lparr>shape = [3, 2], data = [0, 0, 0, 0, 0, 0]\<rparr>),
      (''transformer.h.0.attn.bias'', \<lparr>shape = [1, 1, 2, 2], data = [1, 0, 1, 1]\<rparr>)]"

definition example_sd_hf :: state_dict where
  "example_sd_hf =
     [(''transformer.wte.weight'', \<lparr>shape = [2, 2], data = [1, 2, 3, 4]\<rparr>),
      (''transformer.h.0.attn.c_attn.weight'', \<lparr>shape = [2, 3], data = [1, 2, 3, 4, 5, 6]\<rparr>),
      (''transformer.h.0.attn.masked_bias'', \<lparr>shape = [], data = [- 10000]\<rparr>),
      (''transformer.h.0.attn.bias'', \<lparr>shape = [1, 1, 2, 2], data = [1, 0, 1, 1]\<rparr>)]"

text \<open>A checkpoint whose second parameter has a shape that does not fit.\<close>

definition example_sd_hf_bad :: state_dict where
  "example_sd_hf_bad =
     [(''transformer.wte.weight'', \<lparr>shape = [2, 2], data = [1, 2, 3, 4]\<rparr>),
      (''transformer.h.0.attn.c_attn.weight'', \<lparr>shape = [3, 2], data = [1, 2, 3, 4, 5, 6]\<rparr>)]"

section \<open>Float32 special values\<close>

text \<open>
  The tensors of the program hold IEEE 754 binary32 numbers, and the sections above
  compute over exact reals. This section repeats the forward pass with the special values
  of binary32: a result whose magnitude reaches the overflow threshold \<open>2\<^sup>1\<^sup>2\<^sup>8 - 2\<^sup>1\<^sup>0\<^sup>3\<close>
  becomes an infinity, and infinities and \<open>NaN\<close> propagate as IEEE 754 prescribes
  (\<open>inf - inf\<close>, \<open>0 * inf\<close>, \<open>0 / 0\<close> and \<open>inf / inf\<close> are \<open>NaN\<close>). It is an approximation of
  binary32 in two respects: the rounding of a result that stays in range is not modelled
  (\<open>Fl r\<close> carries the real \<open>r\<close> where the program holds the float nearest to it), and the
  two zeros are not distinguished. A sum is taken from left to right.
\<close>

datatype f32 = NaN32 | PInf | MInf | Fl real

definition overflow_f32 :: real where
  "overflow_f32 = 2 ^ 128 - 2 ^ 103"

definition to_f32 :: "real \<Rightarrow> f32" where
  "to_f32 r = (if overflow_f32 \<le> r then PInf else if r \<le> - overflow_f32 then MInf else Fl r)"

fun fneg :: "f32 \<Rightarrow> f32" where
  "fneg NaN32 = NaN32"
| "fneg PInf = MInf"
| "fneg MInf = PInf"
| "fneg (Fl a) = Fl (- a)"

fun fadd :: "f32 \<Rightarrow> f32 \<Rightarrow> f32" where
  "fadd (Fl a) (Fl b) = to_f32 (a + b)"
| "fadd NaN32 y = NaN32"
| "fadd x NaN32 = NaN32"
| "fadd PInf MInf = NaN32"
| "fadd MInf PInf = NaN32"
| "fadd PInf y = PInf"
| "fadd MInf y = MInf"
| "fadd (Fl a) y = y"

definition fsub :: "f32 \<Rightarrow> f32 \<Rightarrow> f32" where
  "fsub x y = fadd x (fneg y)"

text \<open>The sign of a product or quotient with an infinite operand.\<close>

definition signed_inf :: "bool \<Rightarrow> f32" where
  "signed_inf positive = (if positive then PInf else MInf)"

fun fmul :: "f32 \<Rightarrow> f32 \<Rightarrow> f32" where
  "fmul (Fl a) (Fl b) = to_f32 (a * b)"
| "fmul NaN32 y = NaN32"
| "fmul x NaN32 = NaN32"
| "fmul (Fl a) PInf = (if a = 0 then NaN32 else signed_inf (0 < a))"
| "fmul (Fl a) MInf = (if a = 0 then NaN32 else signed_inf (a < 0))"
| "fmul PInf (Fl b) = (if b = 0 then NaN32 else signed_inf (0 < b))"
| "fmul MInf (Fl b) = (if b = 0 then NaN32 else signed_inf (b < 0))"
| "fmul PInf PInf = PInf"
| "fmul PInf MInf = MInf"
| "fmul MInf PInf = MInf"
| "fmul MInf MInf = PInf"

fun fdiv :: "f32 \<Rightarrow> f32 \<Rightarrow> f32" where
  "fdiv (Fl a) (Fl b) =
     (if b = 0 then (if a = 0 then NaN32 else signed_inf (0 < a)) else to_f32 (a / b))"
| "fdiv NaN32 y = NaN32"
| "fdiv x NaN32 = NaN32"
| "fdiv (Fl a) y = Fl 0"
| "fdiv PInf (Fl b) = signed_inf (0 \<le> b)"
| "fdiv MInf (Fl b) = signed_inf (b < 0)"
| "fdiv x y = NaN32"

fun fsqrt :: "f32 \<Rightarrow> f32" where
  "fsqrt (Fl a) = (if a < 0 then NaN32 else Fl (sqrt a))"
| "fsqrt PInf = PInf"
| "fsqrt x = NaN32"

fun fexp :: "f32 \<Rightarrow> f32" where
  "fexp (Fl a) = to_f32 (exp a)"
| "fexp PInf = PInf"
| "fexp MInf = Fl 0"
| "fexp NaN32 = NaN32"

fun flog :: "f32 \<Rightarrow> f32" where
  "flog (Fl a) = (if a < 0 then NaN32 else if a = 0 then MInf else Fl (ln a))"
| "flog PInf = PInf"
| "flog x = NaN32"

fun ftanh :: "f32 \<Rightarrow> f32" where
  "ftanh (Fl a) = Fl (tanh a)"
| "ftanh PInf = Fl 1"
| "ftanh MInf = Fl (- 1)"
| "ftanh NaN32 = NaN32"

text \<open>The maximum of the library propagates \<open>NaN\<close>.\<close>

fun fmax :: "f32 \<Rightarrow> f32 \<Rightarrow> f32" where
  "fmax (Fl a) (Fl b) = Fl (max a b)"
| "fmax NaN32 y = NaN32"
| "fmax x NaN32 = NaN32"
| "fmax PInf y = PInf"
| "fmax x PInf = PInf"
| "fmax MInf y = y"
| "fmax x MInf = x"

definition fsum :: "f32 list \<Rightarrow> f32" where
  "fsum xs = foldl fadd (Fl 0) xs"

definition fmaximum :: "f32 list \<Rightarrow> f32" where
  "fmaximum xs = foldl fmax MInf xs"

text \<open>
  The layers, as in the sections above. The parameters are the reals of the records,
  read as floats.
\<close>

definition dot_f32 :: "f32 list \<Rightarrow> f32 list \<Rightarrow> f32" where
  "dot_f32 u v = fsum (map (\<lambda>(a, b). fmul a b) (zip u v))"

definition Linear_forward_f32 :: "Linear \<Rightarrow> f32 list \<Rightarrow> f32 list" where
  "Linear_forward_f32 l x =
     (case bias l of
        None \<Rightarrow> map (\<lambda>w. dot_f32 (map to_f32 w) x) (weight l)
      | Some b \<Rightarrow> map (\<lambda>(w, c). fadd (dot_f32 (map to_f32 w) x) (to_f32 c)) (zip (weight l) b))"

definition mean_f32 :: "f32 list \<Rightarrow> f32" where
  "mean_f32 x = fdiv (fsum x) (Fl (real (length x)))"

definition variance_f32 :: "f32 list \<Rightarrow> f32" where
  "variance_f32 x = mean_f32 (map (\<lambda>a. fmul (fsub a (mean_f32 x)) (fsub a (mean_f32 x))) x)"

definition LayerNorm_forward_f32 :: "LayerNorm \<Rightarrow> f32 list \<Rightarrow> f32 list" where
  "LayerNorm_forward_f32 layer x =
     map (\<lambda>i. fadd (fmul (fdiv (fsub (x ! i) (mean_f32 x))
                               (fsqrt (fadd (variance_f32 x) (Fl (1 / 100000)))))
                         (to_f32 (ln_weight layer ! i)))
                   (to_f32 (ln_bias layer ! i)))
       [0..<length x]"

definition gelu_tanh_f32 :: "f32 \<Rightarrow> f32" where
  "gelu_tanh_f32 x =
     fmul (fmul (Fl 0.5) x)
       (fadd (Fl 1)
          (ftanh (fmul (Fl (sqrt (2 / pi))) (fadd x (fmul (Fl 0.044715) (fmul (fmul x x) x))))))"

text \<open>
  \<open>F.softmax\<close> subtracts the row maximum before the exponential; \<open>F.cross_entropy\<close> is the
  mean of \<open>- log_softmax(z)[y]\<close> over the kept targets, \<open>log_softmax(z)\<close> being
  \<open>z - max z - log (\<Sum> exp (z - max z))\<close>.
\<close>

definition softmax_f32 :: "f32 list \<Rightarrow> f32 list" where
  "softmax_f32 r =
     (let e = map (\<lambda>a. fexp (fsub a (fmaximum r))) r
      in map (\<lambda>a. fdiv a (fsum e)) e)"

definition log_softmax_f32 :: "f32 list \<Rightarrow> f32 list" where
  "log_softmax_f32 z =
     (let s = flog (fsum (map (\<lambda>a. fexp (fsub a (fmaximum z))) z))
      in map (\<lambda>a. fsub (fsub a (fmaximum z)) s) z)"

definition cross_entropy_f32 :: "nat \<Rightarrow> f32 list list \<Rightarrow> int list \<Rightarrow> error + f32" where
  "cross_entropy_f32 C inp target =
     (if length inp \<noteq> length target then Inl ValueError
      else if \<not> list_all (\<lambda>y. y = - 100 \<or> (0 \<le> y \<and> y < int C)) target then Inl IndexError
      else let kept = filter (\<lambda>(z, y). y \<noteq> - 100) (zip inp target)
           in Inr (fdiv (fsum (map (\<lambda>(z, y). fneg (log_softmax_f32 z ! nat y)) kept))
                        (Fl (real (length kept)))))"

definition masked_fill_f32 :: "f32 list list \<Rightarrow> bool list list \<Rightarrow> f32 list list" where
  "masked_fill_f32 att msk =
     map (\<lambda>i. map (\<lambda>j. if msk ! i ! j then MInf else att ! i ! j) [0..<length (att ! i)])
       [0..<length att]"

definition attention_scores_f32 :: "nat \<Rightarrow> f32 list list \<Rightarrow> f32 list list \<Rightarrow> f32 list list" where
  "attention_scores_f32 hs q k =
     map (\<lambda>qi. map (\<lambda>kj. fmul (dot_f32 qi kj) (Fl (1 / sqrt (real hs)))) k) q"

definition matmul_f32 :: "nat \<Rightarrow> f32 list list \<Rightarrow> f32 list list \<Rightarrow> f32 list list" where
  "matmul_f32 m a b =
     map (\<lambda>r. map (\<lambda>c. fsum (map (\<lambda>j. fmul (r ! j) (b ! j ! c)) [0..<length b])) [0..<m]) a"

definition attention_one_f32 ::
  "ModelArgs \<Rightarrow> CausalSelfAttention \<Rightarrow> bool list list \<Rightarrow> f32 list list \<Rightarrow> f32 list list" where
  "attention_one_f32 cfg a msk x =
     (let C = n_embd cfg; nh = n_heads cfg; hs = C div nh;
          qkv = map (Linear_forward_f32 (c_attn a)) x;
          q = map (take C) qkv;
          k = map (\<lambda>r. take C (drop C r)) qkv;
          v = map (\<lambda>r. take C (drop (2 * C) r)) qkv;
          qh = split_heads nh hs q;
          kh = split_heads nh hs k;
          vh = split_heads nh hs v;
          att = map (\<lambda>h. map softmax_f32
                            (masked_fill_f32 (attention_scores_f32 hs (qh ! h) (kh ! h)) msk))
                  [0..<nh];
          y = map (\<lambda>h. matmul_f32 hs (att ! h) (vh ! h)) [0..<nh]
      in map (Linear_forward_f32 (c_proj a)) (merge_heads (length x) y))"

definition CausalSelfAttention_forward_f32 ::
  "ModelArgs \<Rightarrow> CausalSelfAttention \<Rightarrow> nat \<Rightarrow> f32 list list list \<Rightarrow> error + f32 list list list" where
  "CausalSelfAttention_forward_f32 cfg a T x =
     (let B = length x; C = n_embd cfg
      in if n_heads cfg = 0 then Inl ZeroDivisionError
         else if B * T * (n_heads cfg * (C div n_heads cfg)) \<noteq> B * T * C then Inl RuntimeError
         else if C div n_heads cfg = 0 then Inl ZeroDivisionError
         else case attn_mask (max_seq_len cfg) T of
                Inl e \<Rightarrow> Inl e
              | Inr msk \<Rightarrow> Inr (map (attention_one_f32 cfg a msk) x))"

definition FeedForward_forward_f32 :: "FeedForward \<Rightarrow> f32 list list list \<Rightarrow> f32 list list list" where
  "FeedForward_forward_f32 m x =
     (let x1 = map (map (Linear_forward_f32 (c_fc m))) x;
          x2 = map (map (map gelu_tanh_f32)) x1;
          x3 = map (map (Linear_forward_f32 (mlp_c_proj m))) x2
      in x3)"

definition tensor_add_f32 :: "f32 list list list \<Rightarrow> f32 list list list \<Rightarrow> f32 list list list" where
  "tensor_add_f32 x y =
     map (\<lambda>(xb, yb). map (\<lambda>(xr, yr). map (\<lambda>(a, b). fadd a b) (zip xr yr)) (zip xb yb)) (zip x y)"

definition TransformerBlock_forward_f32 ::
  "ModelArgs \<Rightarrow> TransformerBlock \<Rightarrow> nat \<Rightarrow> f32 list list list \<Rightarrow> error + f32 list list list" where
  "TransformerBlock_forward_f32 cfg blk T x =
     (case CausalSelfAttention_forward_f32 cfg (attn blk) T
             (map (map (LayerNorm_forward_f32 (ln_1 blk))) x) of
        Inl e \<Rightarrow> Inl e
      | Inr a \<Rightarrow>
          let x1 = tensor_add_f32 x a
          in Inr (tensor_add_f32 x1
                   (FeedForward_forward_f32 (mlp blk)
                      (map (map (LayerNorm_forward_f32 (ln_2 blk))) x1))))"

fun blocks_forward_f32 ::
  "ModelArgs \<Rightarrow> TransformerBlock list \<Rightarrow> nat \<Rightarrow> f32 list list list \<Rightarrow> error + f32 list list list" where
  "blocks_forward_f32 cfg [] T x = Inr x"
| "blocks_forward_f32 cfg (blk # blks) T x =
     (case TransformerBlock_forward_f32 cfg blk T x of
        Inl e \<Rightarrow> Inl e
      | Inr x' \<Rightarrow> blocks_forward_f32 cfg blks T x')"

definition Transformer_forward_f32 ::
  "ModelArgs \<Rightarrow> Transformer \<Rightarrow> long_tensor2 \<Rightarrow> long_tensor2 option \<Rightarrow>
   error + (f32 list list list \<times> f32 option)" where
  "Transformer_forward_f32 cfg m idx targets =
     (let T = ncols idx
      in if \<not> T \<le> max_seq_len cfg then Inl AssertionError
         else if \<not> T \<le> length (wpe m) then Inl IndexError
         else if \<not> valid_ids (length (wte m)) (rows idx)
              then Inl (if wte m = [] then RuntimeError else IndexError)
         else let x = map (\<lambda>r. map (\<lambda>t. map (\<lambda>(a, b). fadd (to_f32 a) (to_f32 b))
                                            (zip (wte m ! nat (r ! t)) (wpe m ! t)))
                                [0..<T]) (rows idx)
              in case blocks_forward_f32 cfg (transformer_h m) T x of
                   Inl e \<Rightarrow> Inl e
                 | Inr x' \<Rightarrow>
                     let x'' = map (map (LayerNorm_forward_f32 (ln_f m))) x';
                         logits = map (map (Linear_forward_f32 (lm_head m))) x'';
                         V = length (weight (lm_head m))
                     in (case targets of
                           None \<Rightarrow> Inr (logits, None)
                         | Some tg \<Rightarrow>
                             if V = 0 then Inl RuntimeError
                             else (case cross_entropy_f32 V (concat logits) (concat (rows tg)) of
                                     Inl e \<Rightarrow> Inl e
                                   | Inr l \<Rightarrow> Inr (logits, Some l))))"

text \<open>
  A model of the shapes its constructor builds, with finite parameters near the top of
  the binary32 range: the value projection of a position holding token \<open>1\<close> exceeds the
  range, that of a position holding token \<open>0\<close> does not.
\<close>

definition overflow_config :: ModelArgs where
  "overflow_config = \<lparr>max_seq_len = 2, vocab_size = 2, n_layers = 1, n_heads = 1, n_embd = 2\<rparr>"

definition overflow_block :: TransformerBlock where
  "overflow_block =
     \<lparr>ln_1 = example_norm,
      attn = \<lparr>c_attn = \<lparr>weight = [[0, 0], [0, 0], [0, 0], [0, 0], [2 ^ 127, - (2 ^ 127)], [0, 0]],
                        bias = Some [0, 0, 0, 0, 2 ^ 127, 0]\<rparr>,
              c_proj = \<lparr>weight = [[0, 0], [0, 0]], bias = Some [0, 0]\<rparr>\<rparr>,
      ln_2 = example_norm,
      mlp = \<lparr>c_fc = \<lparr>weight = [[0, 0], [0, 0], [0, 0], [0, 0], [0, 0], [0, 0], [0, 0], [0, 0]],
                     bias = Some [0, 0, 0, 0, 0, 0, 0, 0]\<rparr>,
             mlp_c_proj = \<lparr>weight = [[0, 0, 0, 0, 0, 0, 0, 0], [0, 0, 0, 0, 0, 0, 0, 0]],
                           bias = Some [0, 0]\<rparr>\<rparr>\<rparr>"

definition overflow_model :: Transformer where
  "overflow_model =
     \<lparr>wte = [[- (9 / 2000), 9 / 2000], [9 / 2000, - (9 / 2000)]],
      wpe = [[0, 0], [0, 0]],
      transformer_h = [overflow_block],
      ln_f = example_norm,
      lm_head = \<lparr>weight = [[- (2 ^ 127), 2 ^ 127], [2 ^ 127, - (2 ^ 127)]], bias = None\<rparr>\<rparr>"

section \<open>Properties of the corpus batcher\<close>

lemma view2_ok:
  "length xs = b * t \<Longrightarrow>
   view2 b t xs = Inr \<lparr>ncols = t, rows = map (\<lambda>i. take t (drop (i * t) xs)) [0..<b]\<rparr>"
  by (simp add: view2_def)

lemma concat_chunks:
  "length xs = b * t \<Longrightarrow> concat (map (\<lambda>i. take t (drop (i * t) xs)) [0..<b]) = xs"
proof (induction b arbitrary: xs rule: nat.induct)
  case zero
  then show ?case by simp
next
  case (Suc b)
  have len: "length (take (b * t) xs) = b * t"
    using Suc.prems by simp
  have same: "map (\<lambda>i. take t (drop (i * t) xs)) [0..<b] =
              map (\<lambda>i. take t (drop (i * t) (take (b * t) xs))) [0..<b]"
  proof (rule map_cong[OF refl])
    fix i assume "i \<in> set [0..<b]"
    then have "i * t + t \<le> b * t"
      by (metis atLeastLessThan_iff set_upt Suc_leI mult_Suc mult_le_mono1 add.commute)
    then show "take t (drop (i * t) xs) = take t (drop (i * t) (take (b * t) xs))"
      by (simp add: drop_take min_def)
  qed
  have "concat (map (\<lambda>i. take t (drop (i * t) xs)) [0..<Suc b]) =
        concat (map (\<lambda>i. take t (drop (i * t) xs)) [0..<b]) @ take t (drop (b * t) xs)"
    by simp
  also have "\<dots> = take (b * t) xs @ take t (drop (b * t) xs)"
    by (simp only: same Suc.IH[OF len])
  also have "\<dots> = xs"
    using Suc.prems by (metis append_take_drop_id take_all_iff length_drop mult_Suc add_diff_cancel_right' order_refl add.commute)
  finally show ?case .
qed

lemma chunk_nth:
  assumes "length xs = b * t" "i < b" "j < t"
  shows "map (\<lambda>i. take t (drop (i * t) xs)) [0..<b] ! i ! j = xs ! (i * t + j)"
proof -
  have "i * t + t \<le> b * t"
    using assms(2) by (metis Suc_leI mult_Suc mult_le_mono1 add.commute)
  then show ?thesis using assms by simp
qed

lemma chunk_bound: "i < b \<Longrightarrow> i * t + t \<le> b * (t::nat)"
  by (metis Suc_leI mult_Suc mult_le_mono1 add.commute)

lemma chunks_shape:
  assumes "length xs = b * t"
  shows "batch_shape_ok b t \<lparr>ncols = t, rows = map (\<lambda>i. take t (drop (i * t) xs)) [0..<b]\<rparr>"
proof -
  have "length (take t (drop (i * t) xs)) = t" if "i < b" for i
    using chunk_bound[OF that, of t] assms by simp
  then show ?thesis
    by (simp add: batch_shape_ok_def wf_long_tensor2_def list_all_iff)
qed

lemma buf_parts:
  assumes "p + n + 1 \<le> length xs"
  shows "butlast (take (n + 1) (drop p xs)) = take n (drop p xs)"
    and "tl (take (n + 1) (drop p xs)) = take n (drop (p + 1) xs)"
    and "length (take n (drop p xs)) = n"
    and "length (take n (drop (p + 1) xs)) = n"
  using assms by (simp_all add: butlast_take tl_take drop_Suc tl_drop)

lemma next_batch_run:
  assumes "current_position s + loader_B s * loader_T s + 1 \<le> length (tokens s)"
  shows "next_batch s =
     Inr ((\<lparr>ncols = loader_T s, rows = map (\<lambda>i. take (loader_T s) (drop (i * loader_T s)
               (take (loader_B s * loader_T s) (drop (current_position s) (tokens s))))) [0..<loader_B s]\<rparr>,
           \<lparr>ncols = loader_T s, rows = map (\<lambda>i. take (loader_T s) (drop (i * loader_T s)
               (take (loader_B s * loader_T s) (drop (current_position s + 1) (tokens s))))) [0..<loader_B s]\<rparr>),
          s\<lparr>current_position :=
            (if current_position s + loader_B s * loader_T s + (loader_B s * loader_T s + 1)
                > length (tokens s)
             then 0 else current_position s + loader_B s * loader_T s)\<rparr>)"
proof -
  define n where "n = loader_B s * loader_T s"
  define p where "p = current_position s"
  have bound: "p + n + 1 \<le> length (tokens s)"
    using assms by (simp add: n_def p_def)
  have lx: "length (take n (drop p (tokens s))) = loader_B s * loader_T s"
   and ly: "length (take n (drop (p + 1) (tokens s))) = loader_B s * loader_T s"
    using buf_parts(3,4)[OF bound] by (simp_all add: n_def)
  have vx: "view2 (loader_B s) (loader_T s) (butlast (take (n + 1) (drop p (tokens s)))) =
      Inr \<lparr>ncols = loader_T s, rows = map (\<lambda>i. take (loader_T s) (drop (i * loader_T s)
               (take n (drop p (tokens s))))) [0..<loader_B s]\<rparr>"
    unfolding buf_parts(1)[OF bound] by (rule view2_ok[OF lx])
  have vy: "view2 (loader_B s) (loader_T s) (tl (take (n + 1) (drop p (tokens s)))) =
      Inr \<lparr>ncols = loader_T s, rows = map (\<lambda>i. take (loader_T s) (drop (i * loader_T s)
               (take n (drop (p + 1) (tokens s))))) [0..<loader_B s]\<rparr>"
    unfolding buf_parts(2)[OF bound] by (rule view2_ok[OF ly])
  show ?thesis
    using vx vy by (simp add: next_batch_def Let_def n_def p_def)
qed

lemma next_batch_preserves:
  assumes "cursor_in_bounds s"
  shows "\<exists>x y s'. next_batch s = Inr ((x, y), s') \<and> cursor_in_bounds s' \<and>
           loader_B s' = loader_B s \<and> loader_T s' = loader_T s \<and> tokens s' = tokens s \<and>
           batch_shape_ok (loader_B s) (loader_T s) x \<and> batch_shape_ok (loader_B s) (loader_T s) y"
proof -
  have pre: "current_position s + loader_B s * loader_T s + 1 \<le> length (tokens s)"
    using assms by (simp add: cursor_in_bounds_def)
  have lx: "length (take (loader_B s * loader_T s) (drop (current_position s) (tokens s))) = loader_B s * loader_T s"
   and ly: "length (take (loader_B s * loader_T s) (drop (current_position s + 1) (tokens s))) = loader_B s * loader_T s"
    using buf_parts(3,4)[OF pre] by simp_all
  show ?thesis
    unfolding next_batch_run[OF pre]
    using pre chunks_shape[OF lx] chunks_shape[OF ly] by (simp add: cursor_in_bounds_def)
qed

lemma next_batches_preserve:
  assumes "cursor_in_bounds s"
  shows "\<exists>xys s'. next_batches n s = Inr (xys, s') \<and> cursor_in_bounds s' \<and>
           loader_B s' = loader_B s \<and> loader_T s' = loader_T s \<and> tokens s' = tokens s \<and>
           length xys = n \<and>
           list_all (\<lambda>(x, y). batch_shape_ok (loader_B s) (loader_T s) x \<and>
                              batch_shape_ok (loader_B s) (loader_T s) y) xys"
  using assms
proof (induction n arbitrary: s)
  case 0
  then show ?case by simp
next
  case (Suc n)
  from next_batch_preserves[OF Suc.prems] obtain x y s1 where
    st: "next_batch s = Inr ((x, y), s1)" "cursor_in_bounds s1"
        "loader_B s1 = loader_B s" "loader_T s1 = loader_T s" "tokens s1 = tokens s"
        "batch_shape_ok (loader_B s) (loader_T s) x" "batch_shape_ok (loader_B s) (loader_T s) y"
    by blast
  from Suc.IH[OF st(2)] obtain xys s2 where
    rest: "next_batches n s1 = Inr (xys, s2)" "cursor_in_bounds s2"
        "loader_B s2 = loader_B s1" "loader_T s2 = loader_T s1" "tokens s2 = tokens s1"
        "length xys = n"
        "list_all (\<lambda>(x, y). batch_shape_ok (loader_B s1) (loader_T s1) x \<and>
                              batch_shape_ok (loader_B s1) (loader_T s1) y) xys"
    by blast
  show ?case
    using st rest by simp
qed

text \<open>
  Claim C5. When the \<open>B*T + 1\<close> tokens starting at the cursor \<open>p\<close> are inside the stream
  (\<open>p + B*T + 1 \<le> M\<close>), \<open>next_batch\<close> returns as inputs the \<open>B*T\<close> tokens from \<open>p\<close> and as
  targets the \<open>B*T\<close> tokens from \<open>p + 1\<close>, both reshaped to \<open>B \<times> T\<close>, so the target at flat
  position \<open>i\<close> is the input at flat position \<open>i + 1\<close>; the cursor advances by \<open>B*T\<close> and is
  reset to 0 exactly when the following read of \<open>B*T + 1\<close> tokens would pass the end.
\<close>

theorem next_batch_contract:
  assumes "current_position s + loader_B s * loader_T s + 1 \<le> length (tokens s)"
  shows "\<exists>x y s'. next_batch s = Inr ((x, y), s') \<and>
     batch_shape_ok (loader_B s) (loader_T s) x \<and>
     batch_shape_ok (loader_B s) (loader_T s) y \<and>
     concat (rows x) = take (loader_B s * loader_T s) (drop (current_position s) (tokens s)) \<and>
     concat (rows y) = take (loader_B s * loader_T s) (drop (current_position s + 1) (tokens s)) \<and>
     (\<forall>i. i + 1 < loader_B s * loader_T s \<longrightarrow> concat (rows y) ! i = concat (rows x) ! (i + 1)) \<and>
     (\<forall>b t. b < loader_B s \<and> t < loader_T s \<longrightarrow>
        rows x ! b ! t = tokens s ! (current_position s + b * loader_T s + t) \<and>
        rows y ! b ! t = tokens s ! (current_position s + 1 + b * loader_T s + t)) \<and>
     s' = s\<lparr>current_position :=
            (if current_position s + loader_B s * loader_T s + (loader_B s * loader_T s + 1)
                > length (tokens s)
             then 0 else current_position s + loader_B s * loader_T s)\<rparr>"
proof -
  define n where "n = loader_B s * loader_T s"
  define p where "p = current_position s"
  define xs where "xs = take n (drop p (tokens s))"
  define ys where "ys = take n (drop (p + 1) (tokens s))"
  define x where "x = \<lparr>ncols = loader_T s, rows = map (\<lambda>i. take (loader_T s) (drop (i * loader_T s) xs)) [0..<loader_B s]\<rparr>"
  define y where "y = \<lparr>ncols = loader_T s, rows = map (\<lambda>i. take (loader_T s) (drop (i * loader_T s) ys)) [0..<loader_B s]\<rparr>"
  have bound: "p + n + 1 \<le> length (tokens s)"
    using assms by (simp add: n_def p_def)
  have lx: "length xs = loader_B s * loader_T s" and ly: "length ys = loader_B s * loader_T s"
    using buf_parts(3,4)[OF bound] by (simp_all add: xs_def ys_def n_def)
  have run: "next_batch s = Inr ((x, y), s\<lparr>current_position :=
            (if p + n + (n + 1) > length (tokens s) then 0 else p + n)\<rparr>)"
    using next_batch_run[OF assms] by (simp add: x_def y_def xs_def ys_def n_def p_def)
  have cx: "concat (rows x) = xs" and cy: "concat (rows y) = ys"
    using concat_chunks[OF lx] concat_chunks[OF ly] by (simp_all add: x_def y_def)
  have shx: "batch_shape_ok (loader_B s) (loader_T s) x"
    unfolding x_def by (rule chunks_shape[OF lx])
  have shy: "batch_shape_ok (loader_B s) (loader_T s) y"
    unfolding y_def by (rule chunks_shape[OF ly])
  have shift: "\<forall>i. i + 1 < n \<longrightarrow> ys ! i = xs ! (i + 1)"
    using bound by (simp add: xs_def ys_def add.commute add.left_commute)
  have idx: "\<forall>b t. b < loader_B s \<and> t < loader_T s \<longrightarrow>
        rows x ! b ! t = tokens s ! (p + b * loader_T s + t) \<and>
        rows y ! b ! t = tokens s ! (p + 1 + b * loader_T s + t)"
  proof (intro allI impI, elim conjE)
    fix b t assume bt: "b < loader_B s" "t < loader_T s"
    have lt: "b * loader_T s + t < n"
    proof -
      have "b * loader_T s + loader_T s \<le> n"
        unfolding n_def using bt(1) by (metis Suc_leI mult_Suc mult_le_mono1 add.commute)
      then show ?thesis using bt(2) by simp
    qed
    have "rows x ! b ! t = xs ! (b * loader_T s + t)"
      using chunk_nth[OF lx bt] by (simp add: x_def)
    moreover have "rows y ! b ! t = ys ! (b * loader_T s + t)"
      using chunk_nth[OF ly bt] by (simp add: y_def)
    moreover have "xs ! (b * loader_T s + t) = tokens s ! (p + b * loader_T s + t)"
      using lt bound by (simp add: xs_def add.assoc)
    moreover have "ys ! (b * loader_T s + t) = tokens s ! (p + 1 + b * loader_T s + t)"
      using lt bound by (simp add: ys_def add.assoc)
    ultimately show "rows x ! b ! t = tokens s ! (p + b * loader_T s + t) \<and>
        rows y ! b ! t = tokens s ! (p + 1 + b * loader_T s + t)"
      by simp
  qed
  show ?thesis
    apply (rule exI[of _ x], rule exI[of _ y])
    using run shx shy cx cy shift idx
    by (simp add: n_def[symmetric] p_def[symmetric] xs_def ys_def)
qed


text \<open>
  The spec's example: on the stream \<open>0, 1, \<dots>, 999\<close> with \<open>B = 2\<close>, \<open>T = 3\<close> the first call
  returns the input \<open>[[0,1,2],[3,4,5]]\<close>, the target \<open>[[1,2,3],[4,5,6]]\<close> and the cursor 6.
\<close>

theorem next_batch_contract_witness:
  "DataLoaderLite_init 2 3 (map int [0..<1000]) =
     Inr \<lparr>loader_B = 2, loader_T = 3, tokens = map int [0..<1000], current_position = 0\<rparr> \<and>
   next_batch \<lparr>loader_B = 2, loader_T = 3, tokens = map int [0..<1000], current_position = 0\<rparr> =
     Inr ((\<lparr>ncols = 3, rows = [[0, 1, 2], [3, 4, 5]]\<rparr>,
           \<lparr>ncols = 3, rows = [[1, 2, 3], [4, 5, 6]]\<rparr>),
          \<lparr>loader_B = 2, loader_T = 3, tokens = map int [0..<1000], current_position = 6\<rparr>) \<and>
   (\<exists>x y s'. next_batch \<lparr>loader_B = 2, loader_T = 3, tokens = map int [0..<1000],
                           current_position = 0\<rparr> = Inr ((x, y), s') \<and>
      batch_shape_ok 2 3 x \<and> batch_shape_ok 2 3 y \<and>
      concat (rows x) = [0, 1, 2, 3, 4, 5] \<and> concat (rows y) = [1, 2, 3, 4, 5, 6] \<and>
      current_position s' = 6)"
proof -
  let ?s = "\<lparr>loader_B = 2, loader_T = 3, tokens = map int [0..<1000], current_position = 0\<rparr>"
  have init: "DataLoaderLite_init 2 3 (map int [0..<1000]) = Inr ?s"
    by (simp add: DataLoaderLite_init_def)
  have pre: "current_position ?s + loader_B ?s * loader_T ?s + 1 \<le> length (tokens ?s)"
    by simp
  have ev: "next_batch ?s =
     Inr ((\<lparr>ncols = 3, rows = [[0, 1, 2], [3, 4, 5]]\<rparr>,
           \<lparr>ncols = 3, rows = [[1, 2, 3], [4, 5, 6]]\<rparr>),
          \<lparr>loader_B = 2, loader_T = 3, tokens = map int [0..<1000], current_position = 6\<rparr>)"
  proof -
    have seven: "map int [0..<7] = [0, 1, 2, 3, 4, 5, 6]" by code_simp
    have two: "[0..<2] = [0, Suc 0]" by code_simp
    show ?thesis
      by (simp add: next_batch_def view2_def Let_def take_map seven two)
  qed
  from next_batch_contract[OF pre] obtain x y s' where
    r: "next_batch ?s = Inr ((x, y), s')" and
    sx: "batch_shape_ok (loader_B ?s) (loader_T ?s) x" and
    sy: "batch_shape_ok (loader_B ?s) (loader_T ?s) y" and
    cx: "concat (rows x) = take (loader_B ?s * loader_T ?s) (drop (current_position ?s) (tokens ?s))" and
    cy: "concat (rows y) = take (loader_B ?s * loader_T ?s) (drop (current_position ?s + 1) (tokens ?s))"
    by blast
  have "batch_shape_ok 2 3 x" "batch_shape_ok 2 3 y"
    using sx sy by simp_all
  moreover have "concat (rows x) = [0, 1, 2, 3, 4, 5]"
    using cx by (simp add: take_map) code_simp
  moreover have "concat (rows y) = [1, 2, 3, 4, 5, 6]"
    using cy by (simp add: take_map drop_map) code_simp
  moreover have "current_position s' = 6"
    using r ev by auto
  ultimately show ?thesis using init ev r by blast
qed

text \<open>
  Claim C10. For a stream of length \<open>M \<ge> B*T + 1\<close> the invariant
  \<open>0 \<le> current_position \<and> current_position + B*T + 1 \<le> M\<close> holds at construction (the
  constructor returns a loader exactly when \<open>B*T \<ge> 1\<close>, with the cursor at 0), is preserved
  by every \<open>next_batch\<close> call from any state that satisfies it, and so holds after any number
  of calls; every call returns (no view fails) and its two batches have shape \<open>B \<times> T\<close>.
\<close>

theorem cursor_invariant:
  assumes "b * t + 1 \<le> length toks"
  shows "(b * t = 0 \<longrightarrow> DataLoaderLite_init b t toks = Inl ZeroDivisionError) \<and>
         (b * t \<noteq> 0 \<longrightarrow>
            (\<exists>s0. DataLoaderLite_init b t toks = Inr s0 \<and>
               loader_B s0 = b \<and> loader_T s0 = t \<and> tokens s0 = toks \<and>
               current_position s0 = 0 \<and> cursor_in_bounds s0)) \<and>
         (\<forall>s. loader_B s = b \<and> loader_T s = t \<and> tokens s = toks \<and> cursor_in_bounds s \<longrightarrow>
              (\<exists>x y s'. next_batch s = Inr ((x, y), s') \<and> cursor_in_bounds s' \<and>
                 loader_B s' = b \<and> loader_T s' = t \<and> tokens s' = toks \<and>
                 batch_shape_ok b t x \<and> batch_shape_ok b t y) \<and>
              (\<forall>n. \<exists>xys s'. next_batches n s = Inr (xys, s') \<and>
                 0 \<le> current_position s' \<and>
                 current_position s' + b * t + 1 \<le> length toks \<and>
                 loader_B s' = b \<and> loader_T s' = t \<and> tokens s' = toks \<and>
                 length xys = n \<and>
                 list_all (\<lambda>(x, y). batch_shape_ok b t x \<and> batch_shape_ok b t y) xys))"
proof -
  have zero: "b * t = 0 \<longrightarrow> DataLoaderLite_init b t toks = Inl ZeroDivisionError"
    by (simp add: DataLoaderLite_init_def)
  have init: "b * t \<noteq> 0 \<longrightarrow>
            (\<exists>s0. DataLoaderLite_init b t toks = Inr s0 \<and>
               loader_B s0 = b \<and> loader_T s0 = t \<and> tokens s0 = toks \<and>
               current_position s0 = 0 \<and> cursor_in_bounds s0)"
    using assms by (simp add: DataLoaderLite_init_def cursor_in_bounds_def)
  have many: "\<exists>xys s'. next_batches n s = Inr (xys, s') \<and>
              0 \<le> current_position s' \<and>
              current_position s' + b * t + 1 \<le> length toks \<and>
              loader_B s' = b \<and> loader_T s' = t \<and> tokens s' = toks \<and>
              length xys = n \<and>
              list_all (\<lambda>(x, y). batch_shape_ok b t x \<and> batch_shape_ok b t y) xys"
    if st: "loader_B s = b \<and> loader_T s = t \<and> tokens s = toks \<and> cursor_in_bounds s" for s n
  proof -
    have inb: "cursor_in_bounds s" and f: "loader_B s = b" "loader_T s = t" "tokens s = toks"
      using st by simp_all
    from next_batches_preserve[OF inb, of n] obtain xys s' where
      r: "next_batches n s = Inr (xys, s')" "cursor_in_bounds s'"
         "loader_B s' = b" "loader_T s' = t" "tokens s' = toks" "length xys = n"
         "list_all (\<lambda>(x, y). batch_shape_ok b t x \<and> batch_shape_ok b t y) xys"
      unfolding f by blast
    have "current_position s' + b * t + 1 \<le> length toks"
      using r(2-5) by (simp add: cursor_in_bounds_def)
    with r show ?thesis by simp
  qed
  have one: "\<exists>x y s'. next_batch s = Inr ((x, y), s') \<and> cursor_in_bounds s' \<and>
                 loader_B s' = b \<and> loader_T s' = t \<and> tokens s' = toks \<and>
                 batch_shape_ok b t x \<and> batch_shape_ok b t y"
    if "loader_B s = b \<and> loader_T s = t \<and> tokens s = toks \<and> cursor_in_bounds s" for s
    using next_batch_preserves[of s] that by simp
  show ?thesis
    apply (intro conjI allI impI)
       apply (rule zero[rule_format], assumption)
      apply (rule init[rule_format], assumption)
     apply (erule one)
    apply (erule many)
    done
qed

theorem cursor_invariant_witness:
  "2 * 3 + 1 \<le> length (map int [0..<1000]) \<and>
   (\<exists>s0. DataLoaderLite_init 2 3 (map int [0..<1000]) = Inr s0 \<and> cursor_in_bounds s0 \<and>
      (\<exists>xys s'. next_batches 200 s0 = Inr (xys, s') \<and>
         current_position s' + 2 * 3 + 1 \<le> length (map int [0..<1000]) \<and> length xys = 200))"
proof -
  have pre: "2 * 3 + 1 \<le> length (map int [0..<1000])" by simp
  note inv = cursor_invariant[OF pre]
  have nz: "(2::nat) * 3 \<noteq> 0" by simp
  from inv[THEN conjunct2, THEN conjunct1, THEN mp, OF nz] obtain s0 where
    s0: "DataLoaderLite_init 2 3 (map int [0..<1000]) = Inr s0"
        "loader_B s0 = 2 \<and> loader_T s0 = 3 \<and> tokens s0 = map int [0..<1000] \<and> cursor_in_bounds s0"
    by blast
  note step = inv[THEN conjunct2, THEN conjunct2, THEN spec, THEN mp, OF s0(2), THEN conjunct2, THEN spec]
  from step[of 200] obtain xys s' where
    "next_batches 200 s0 = Inr (xys, s')"
    "current_position s' + 2 * 3 + 1 \<le> length (map int [0..<1000])" "length xys = 200"
    by blast
  then have b: "\<exists>xys s'. next_batches 200 s0 = Inr (xys, s') \<and>
      current_position s' + 2 * 3 + 1 \<le> length (map int [0..<1000]) \<and> length xys = 200"
    by blast
  have "\<exists>s0. DataLoaderLite_init 2 3 (map int [0..<1000]) = Inr s0 \<and> cursor_in_bounds s0 \<and>
      (\<exists>xys s'. next_batches 200 s0 = Inr (xys, s') \<and>
         current_position s' + 2 * 3 + 1 \<le> length (map int [0..<1000]) \<and> length xys = 200)"
    apply (rule exI[of _ s0])
    using s0 b by simp
  then show ?thesis
    using pre by (rule conjI[rotated])
qed

section \<open>Properties of construction and of the sequence-length check\<close>

lemma attn_not_assert: "CausalSelfAttention_forward cfg a T x \<noteq> Inl AssertionError"
  by (auto simp: CausalSelfAttention_forward_def attn_mask_def Let_def split: sum.splits if_splits)

lemma block_not_assert: "TransformerBlock_forward cfg blk T x \<noteq> Inl AssertionError"
  using attn_not_assert by (auto simp: TransformerBlock_forward_def Let_def split: sum.splits)

lemma blocks_not_assert: "blocks_forward cfg blks T x \<noteq> Inl AssertionError"
  using block_not_assert by (induction blks arbitrary: x) (auto split: sum.splits)

lemma cross_entropy_not_assert: "cross_entropy C inp target \<noteq> Inl AssertionError"
  by (simp add: cross_entropy_def Let_def)

text \<open>
  Claim C3. \<open>Transformer.forward\<close> fails with the assertion error whenever the sequence
  length \<open>T\<close> of the input exceeds \<open>max_seq_len\<close>: it returns no logits at all, so nothing
  is truncated. When \<open>T \<le> max_seq_len\<close> the assertion error is not the outcome, whatever
  else happens.
\<close>

theorem forward_seq_len_assert:
  "(max_seq_len cfg < ncols idx \<longrightarrow> Transformer_forward cfg m idx targets = Inl AssertionError) \<and>
   (ncols idx \<le> max_seq_len cfg \<longrightarrow> Transformer_forward cfg m idx targets \<noteq> Inl AssertionError)"
proof (intro conjI impI)
  assume "max_seq_len cfg < ncols idx"
  then show "Transformer_forward cfg m idx targets = Inl AssertionError"
    by (simp add: Transformer_forward_def Let_def)
next
  assume "ncols idx \<le> max_seq_len cfg"
  then show "Transformer_forward cfg m idx targets \<noteq> Inl AssertionError"
    using blocks_not_assert cross_entropy_not_assert
    by (auto simp: Transformer_forward_def Let_def split: sum.splits option.splits)
qed

lemma attention_init_cases:
  "CausalSelfAttention_init cfg =
     (if n_heads cfg = 0 then Inl ZeroDivisionError
      else if n_embd cfg mod n_heads cfg \<noteq> 0 then Inl AssertionError
      else if n_embd cfg = 0 then Inl ZeroDivisionError
      else Inr (n_embd cfg div n_heads cfg))"
  by (auto simp: CausalSelfAttention_init_def Let_def mod_eq_0_iff_dvd dvd_div_mult_self)

lemma init_blocks_fail:
  "TransformerBlock_init cfg = Inl e \<Longrightarrow> init_blocks cfg (Suc n) = Inl e"
  by simp

lemma init_blocks_ok:
  "TransformerBlock_init cfg = Inr d \<Longrightarrow> init_blocks cfg n = Inr (replicate n d)"
  by (induction n) simp_all

text \<open>
  Claim C4, as the code has it. Constructing a \<open>CausalSelfAttention\<close> submodule, or a model
  with at least one layer, fails when \<open>n_embd\<close> is not divisible by \<open>n_heads\<close>: with the
  assertion error, or with a division by zero when \<open>n_heads = 0\<close>. When \<open>n_heads \<ge> 1\<close> divides
  \<open>n_embd\<close> the assertions pass, the head dimension is \<open>n_embd div n_heads\<close>, and for
  \<open>n_embd \<ge> 1\<close> the construction succeeds. (A model with no layer builds no attention
  submodule, so nothing is checked for it.)
\<close>

theorem init_divisibility:
  "(n_heads cfg = 0 \<longrightarrow> CausalSelfAttention_init cfg = Inl ZeroDivisionError) \<and>
   (n_heads cfg \<noteq> 0 \<and> n_embd cfg mod n_heads cfg \<noteq> 0 \<longrightarrow>
      CausalSelfAttention_init cfg = Inl AssertionError) \<and>
   (1 \<le> n_layers cfg \<and> n_heads cfg = 0 \<longrightarrow> Transformer_init cfg = Inl ZeroDivisionError) \<and>
   (1 \<le> n_layers cfg \<and> n_heads cfg \<noteq> 0 \<and> n_embd cfg mod n_heads cfg \<noteq> 0 \<longrightarrow>
      Transformer_init cfg = Inl AssertionError) \<and>
   (n_heads cfg \<noteq> 0 \<and> n_embd cfg mod n_heads cfg = 0 \<longrightarrow>
      CausalSelfAttention_init cfg \<noteq> Inl AssertionError \<and>
      Transformer_init cfg \<noteq> Inl AssertionError \<and>
      (\<forall>d. CausalSelfAttention_init cfg = Inr d \<longrightarrow> d = n_embd cfg div n_heads cfg) \<and>
      (n_embd cfg \<noteq> 0 \<longrightarrow>
         CausalSelfAttention_init cfg = Inr (n_embd cfg div n_heads cfg) \<and>
         Transformer_init cfg = Inr (replicate (n_layers cfg) (n_embd cfg div n_heads cfg))))"
proof -
  have blk: "TransformerBlock_init cfg = CausalSelfAttention_init cfg"
    by (simp add: TransformerBlock_init_def attention_init_cases)
  have fail: "Transformer_init cfg = Inl e"
    if "1 \<le> n_layers cfg" "CausalSelfAttention_init cfg = Inl e" for e
  proof -
    note pos = that(1) and bad = that(2)
    obtain n where "n_layers cfg = Suc n"
      using pos by (cases "n_layers cfg") auto
    then show ?thesis
      using init_blocks_fail[of cfg e n] bad by (simp add: Transformer_init_def blk)
  qed
  have ok: "Transformer_init cfg = Inr (replicate (n_layers cfg) d)"
    if "CausalSelfAttention_init cfg = Inr d" for d
    using init_blocks_ok[of cfg d] that by (simp add: Transformer_init_def blk)
  have noassert: "Transformer_init cfg \<noteq> Inl AssertionError"
    if "n_heads cfg \<noteq> 0" "n_embd cfg mod n_heads cfg = 0"
  proof (cases "n_embd cfg = 0")
    case False
    then show ?thesis using ok[of "n_embd cfg div n_heads cfg"] that
      by (simp add: attention_init_cases)
  next
    case True
    have a: "CausalSelfAttention_init cfg = Inl ZeroDivisionError"
      using True that by (simp add: attention_init_cases)
    show ?thesis
    proof (cases "n_layers cfg")
      case 0
      then show ?thesis by (simp add: Transformer_init_def)
    next
      case (Suc n)
      then show ?thesis using fail[OF _ a] by simp
    qed
  qed
  show ?thesis
    using fail ok noassert by (auto simp: attention_init_cases)
qed

theorem forward_seq_len_assert_witness:
  "Transformer_forward example_config example_model \<lparr>ncols = 3, rows = [[0, 1, 2]]\<rparr> None =
     Inl AssertionError \<and>
   Transformer_forward example_config example_model \<lparr>ncols = 2, rows = [[0, 1]]\<rparr> None \<noteq>
     Inl AssertionError"
proof -
  have a: "max_seq_len example_config < ncols \<lparr>ncols = 3, rows = [[0, 1, 2]]\<rparr>"
    by (simp add: example_config_def)
  have b: "ncols \<lparr>ncols = 2, rows = [[0, 1]]\<rparr> \<le> max_seq_len example_config"
    by (simp add: example_config_def)
  from forward_seq_len_assert[of example_config "\<lparr>ncols = 3, rows = [[0, 1, 2]]\<rparr>" example_model None]
  have 1: "Transformer_forward example_config example_model \<lparr>ncols = 3, rows = [[0, 1, 2]]\<rparr> None =
     Inl AssertionError"
    using a by blast
  from forward_seq_len_assert[of example_config "\<lparr>ncols = 2, rows = [[0, 1]]\<rparr>" example_model None]
  have 2: "Transformer_forward example_config example_model \<lparr>ncols = 2, rows = [[0, 1]]\<rparr> None \<noteq>
     Inl AssertionError"
    using b by blast
  show ?thesis using 1 2 by (rule conjI)
qed

theorem init_divisibility_witness:
  "Transformer_init \<lparr>max_seq_len = 8, vocab_size = 16, n_layers = 2, n_heads = 5, n_embd = 12\<rparr> =
     Inl AssertionError \<and>
   CausalSelfAttention_init \<lparr>max_seq_len = 8, vocab_size = 16, n_layers = 2, n_heads = 5, n_embd = 12\<rparr> =
     Inl AssertionError \<and>
   Transformer_init \<lparr>max_seq_len = 8, vocab_size = 16, n_layers = 2, n_heads = 0, n_embd = 12\<rparr> =
     Inl ZeroDivisionError \<and>
   CausalSelfAttention_init \<lparr>max_seq_len = 8, vocab_size = 16, n_layers = 2, n_heads = 4, n_embd = 12\<rparr> =
     Inr 3 \<and>
   Transformer_init \<lparr>max_seq_len = 8, vocab_size = 16, n_layers = 2, n_heads = 4, n_embd = 12\<rparr> =
     Inr [3, 3]"
proof -
  have r: "replicate 2 (3::nat) = [3, 3]" by code_simp
  have 1: "Transformer_init \<lparr>max_seq_len = 8, vocab_size = 16, n_layers = 2, n_heads = 5, n_embd = 12\<rparr> =
     Inl AssertionError \<and>
   CausalSelfAttention_init \<lparr>max_seq_len = 8, vocab_size = 16, n_layers = 2, n_heads = 5, n_embd = 12\<rparr> =
     Inl AssertionError"
    using init_divisibility[of "\<lparr>max_seq_len = 8, vocab_size = 16, n_layers = 2, n_heads = 5, n_embd = 12\<rparr>"]
    by simp
  have 2: "Transformer_init \<lparr>max_seq_len = 8, vocab_size = 16, n_layers = 2, n_heads = 0, n_embd = 12\<rparr> =
     Inl ZeroDivisionError"
    using init_divisibility[of "\<lparr>max_seq_len = 8, vocab_size = 16, n_layers = 2, n_heads = 0, n_embd = 12\<rparr>"]
    by simp
  let ?c = "\<lparr>max_seq_len = 8, vocab_size = 16, n_layers = 2, n_heads = 4, n_embd = 12\<rparr>"
  have h: "n_heads ?c \<noteq> 0 \<and> n_embd ?c mod n_heads ?c = 0" by simp
  have e: "n_embd ?c \<noteq> 0" by simp
  have q: "n_embd ?c div n_heads ?c = 3" "n_layers ?c = 2" by simp_all
  note d = init_divisibility[of ?c, THEN conjunct2, THEN conjunct2, THEN conjunct2,
      THEN conjunct2, THEN mp, OF h, THEN conjunct2, THEN conjunct2, THEN conjunct2, THEN mp, OF e]
  have 3: "CausalSelfAttention_init ?c = Inr 3 \<and> Transformer_init ?c = Inr [3, 3]"
    using d unfolding q r .
  show ?thesis using 1 2 3 by (intro conjI) (erule conjunct1, erule conjunct2, assumption, erule conjunct1, erule conjunct2)
qed

text \<open>
  The claim as stated (every construction with \<open>n_embd\<close> not divisible by \<open>n_heads\<close> fails)
  does not hold for a model without layers: the list comprehension over \<open>range(0)\<close> builds
  no block, so no divisibility check runs.
\<close>

theorem init_no_layers_counterexample:
  "(12::nat) mod 5 \<noteq> 0 \<and>
   Transformer_init \<lparr>max_seq_len = 8, vocab_size = 16, n_layers = 0, n_heads = 5, n_embd = 12\<rparr> =
     Inr []"
  by (simp add: Transformer_init_def)

section \<open>Properties of the attention weights\<close>

lemma exp_score_nonneg: "0 \<le> exp_score a"
  by (cases a) simp_all

lemma sum_exp_score_nonneg: "0 \<le> (\<Sum>b\<leftarrow>r. exp_score b)"
  by (induction r) (simp_all add: exp_score_nonneg)

lemma sum_exp_score_pos:
  "Fin v \<in> set r \<Longrightarrow> 0 < (\<Sum>b\<leftarrow>r. exp_score b)"
proof (induction r)
  case Nil
  then show ?case by simp
next
  case (Cons a r)
  show ?case
  proof (cases "a = Fin v")
    case True
    then show ?thesis using sum_exp_score_nonneg[of r]
      by (simp add: add_pos_nonneg)
  next
    case False
    then have "0 < (\<Sum>b\<leftarrow>r. exp_score b)" using Cons by simp
    then show ?thesis using exp_score_nonneg[of a] by (simp add: add_nonneg_pos)
  qed
qed

lemma sum_list_divide_const:
  "(\<Sum>a\<leftarrow>r. f a / (c::real)) = (\<Sum>a\<leftarrow>r. f a) / c"
  by (induction r) (simp_all add: add_divide_distrib)

lemma softmax_sums_to_one:
  assumes "Fin v \<in> set r"
  shows "sum_list (softmax r) = 1"
  using sum_exp_score_pos[OF assms]
  by (simp add: softmax_def sum_list_divide_const)

lemma tril_slice:
  assumes "T \<le> L"
  shows "map (\<lambda>r. map (\<lambda>v. v = 0) (take T r)) (take T (tril_ones L)) = causal_mask T"
proof -
  have "take T (tril_ones L) = map (\<lambda>i. map (\<lambda>j. if j \<le> i then 1 else 0) [0..<L]) [0..<T]"
    using assms by (simp add: tril_ones_def take_map)
  moreover have "map (\<lambda>v. v = (0::real)) (take T (map (\<lambda>j. if j \<le> i then 1 else 0) [0..<L])) =
                 map (\<lambda>j. i < j) [0..<T]" for i :: nat
    using assms by (auto simp: take_map)
  ultimately show ?thesis by (simp add: causal_mask_def)
qed

lemma length_causal_mask: "length (causal_mask T) = T"
  by (simp add: causal_mask_def)

lemma causal_mask_nth: "i < T \<Longrightarrow> j < T \<Longrightarrow> causal_mask T ! i ! j = (i < j)"
  by (simp add: causal_mask_def)

lemma attn_mask_causal:
  assumes "T \<le> L"
  shows "attn_mask L T = Inr (causal_mask T)"
  by (simp add: attn_mask_def tril_slice[OF assms] Let_def length_causal_mask)

lemma split_heads_nth:
  "h < nh \<Longrightarrow> split_heads nh hs m ! h = map (\<lambda>r. take hs (drop (h * hs) r)) m"
  by (simp add: split_heads_def)

lemma masked_scores_row:
  assumes "i < length q"
  shows "masked_fill (attention_scores hs q k) msk ! i =
         map (\<lambda>j. if msk ! i ! j then NegInf else Fin (dot (q ! i) (k ! j) * (1 / sqrt (real hs))))
           [0..<length k]"
  using assms by (simp add: masked_fill_def attention_scores_def)

lemma attention_att_head:
  assumes "h < n_heads cfg"
  shows "attention_att cfg a msk x ! h =
     map softmax (masked_fill (attention_scores (n_embd cfg div n_heads cfg)
       (map (attn_q cfg a h) x) (map (attn_k cfg a h) x)) msk)"
proof -
  have q: "map (\<lambda>r. take hs (drop (h * hs) r)) (map (take C) (map (Linear_forward (c_attn a)) x)) =
           map (\<lambda>xr. take hs (drop (h * hs) (take C (Linear_forward (c_attn a) xr)))) x" for hs C
    by simp
  have k: "map (\<lambda>r. take hs (drop (h * hs) r))
             (map (\<lambda>r. take C (drop C r)) (map (Linear_forward (c_attn a)) x)) =
           map (\<lambda>xr. take hs (drop (h * hs) (take C (drop C (Linear_forward (c_attn a) xr))))) x" for hs C
    by simp
  show ?thesis
    unfolding attention_att_def Let_def
    using assms by (simp only: nth_map length_upt nth_upt add_0 minus_nat.diff_0 split_heads_nth q k attn_q_def[abs_def] attn_k_def[abs_def])
qed

lemma length_attention_att_head:
  "h < n_heads cfg \<Longrightarrow> length (attention_att cfg a msk x ! h) = length x"
  by (simp add: attention_att_head masked_fill_def attention_scores_def)

lemma attention_att_row:
  assumes "h < n_heads cfg" "i < length x"
  shows "attention_att cfg a msk x ! h ! i =
     softmax (map (\<lambda>j. if msk ! i ! j then NegInf else Fin (attn_score cfg a h (x ! i) (x ! j)))
                [0..<length x])"
proof -
  have len: "i < length (masked_fill (attention_scores (n_embd cfg div n_heads cfg)
       (map (attn_q cfg a h) x) (map (attn_k cfg a h) x)) msk)"
    using assms(2) by (simp add: masked_fill_def attention_scores_def)
  have iq: "i < length (map (attn_q cfg a h) x)"
    using assms(2) by simp
  have "attention_att cfg a msk x ! h ! i =
     softmax (map (\<lambda>j. if msk ! i ! j then NegInf
        else Fin (dot (map (attn_q cfg a h) x ! i) (map (attn_k cfg a h) x ! j) *
                  (1 / sqrt (real (n_embd cfg div n_heads cfg)))))
           [0..<length (map (attn_k cfg a h) x)])"
    unfolding attention_att_head[OF assms(1)] nth_map[OF len] masked_scores_row[OF iq] ..
  also have "\<dots> = softmax (map (\<lambda>j. if msk ! i ! j then NegInf else Fin (attn_score cfg a h (x ! i) (x ! j)))
                [0..<length x])"
    using assms(2) by (intro arg_cong[where f = softmax] map_cong) (simp_all add: attn_score_def)
  finally show ?thesis .
qed

lemma length_softmax: "length (softmax r) = length r"
  by (simp add: softmax_def)

text \<open>
  Claim C9. For an attention input of shape \<open>B \<times> T \<times> E\<close> with \<open>T \<le> max_seq_len\<close> the mask is
  well defined, the post-softmax \<open>att\<close> of every batch element and head is a \<open>T \<times> T\<close> matrix,
  and each of its rows sums to 1 (over exact reals): the lower-triangular mask leaves the
  diagonal entry of every row unmasked, so the normalising sum is positive.
\<close>

theorem attention_rows_sum_to_one:
  assumes "T \<le> max_seq_len cfg" and "list_all (\<lambda>xb. length xb = T) x"
  shows "\<exists>msk. attn_mask (max_seq_len cfg) T = Inr msk \<and>
           (\<forall>xb \<in> set x. \<forall>h < n_heads cfg.
              length (attention_att cfg a msk xb ! h) = T \<and>
              (\<forall>i < T. length (attention_att cfg a msk xb ! h ! i) = T \<and>
                        sum_list (attention_att cfg a msk xb ! h ! i) = 1))"
proof -
  have row: "length (attention_att cfg a (causal_mask T) xb ! h ! i) = T \<and>
             sum_list (attention_att cfg a (causal_mask T) xb ! h ! i) = 1"
    if "xb \<in> set x" "h < n_heads cfg" "i < T" for xb h i
  proof -
    have len: "length xb = T"
      using assms(2) that(1) by (simp add: list_all_iff)
    define r where "r = map (\<lambda>j. if causal_mask T ! i ! j then NegInf
                                else Fin (attn_score cfg a h (xb ! i) (xb ! j))) [0..<T]"
    have eq: "attention_att cfg a (causal_mask T) xb ! h ! i = softmax r"
      using attention_att_row[OF that(2), of i xb a "causal_mask T"] that(3)
      by (simp add: len r_def)
    have "r ! i = Fin (attn_score cfg a h (xb ! i) (xb ! i))"
      using that(3) by (simp add: r_def causal_mask_nth)
    moreover have "i < length r"
      using that(3) by (simp add: r_def)
    ultimately have "Fin (attn_score cfg a h (xb ! i) (xb ! i)) \<in> set r"
      by (metis nth_mem)
    then have "sum_list (softmax r) = 1"
      by (rule softmax_sums_to_one)
    moreover have "length (softmax r) = T"
      by (simp add: length_softmax r_def)
    ultimately show ?thesis by (simp add: eq)
  qed
  have len: "length (attention_att cfg a (causal_mask T) xb ! h) = T"
    if "xb \<in> set x" "h < n_heads cfg" for xb h
  proof -
    have "length xb = T"
      using assms(2) that(1) by (simp add: list_all_iff)
    then show ?thesis
      using length_attention_att_head[OF that(2)] by simp
  qed
  show ?thesis
    using attn_mask_causal[OF assms(1)] row len by blast
qed


theorem attention_rows_sum_to_one_witness:
  "\<exists>msk. attn_mask (max_seq_len example_config) 2 = Inr msk \<and>
     sum_list (attention_att example_config (attn example_block) msk [[1, 0], [0, 1]] ! 0 ! 0) = 1 \<and>
     sum_list (attention_att example_config (attn example_block) msk [[1, 0], [0, 1]] ! 1 ! 1) = 1"
proof -
  have le: "2 \<le> max_seq_len example_config"
    by (simp add: example_config_def)
  have sh: "list_all (\<lambda>xb. length xb = 2) [[[1, 0], [0, 1::real]]]"
    by simp
  from attention_rows_sum_to_one[OF le sh, of "attn example_block"] obtain msk where
    m: "attn_mask (max_seq_len example_config) 2 = Inr msk" and
    r: "\<forall>xb \<in> set [[[1, 0], [0, 1]]]. \<forall>h < n_heads example_config.
              length (attention_att example_config (attn example_block) msk xb ! h) = 2 \<and>
              (\<forall>i < 2. length (attention_att example_config (attn example_block) msk xb ! h ! i) = 2 \<and>
                        sum_list (attention_att example_config (attn example_block) msk xb ! h ! i) = 1)"
    by blast
  have h0: "0 < n_heads example_config" and h1: "1 < n_heads example_config"
    by (simp_all add: example_config_def)
  have "sum_list (attention_att example_config (attn example_block) msk [[1, 0], [0, 1]] ! 0 ! 0) = 1"
    using r h0 by simp
  moreover have "sum_list (attention_att example_config (attn example_block) msk [[1, 0], [0, 1]] ! 1 ! 1) = 1"
    using r h1 by simp
  ultimately show ?thesis using m by blast
qed

section \<open>Causality of the forward pass\<close>

lemma attention_one_row:
  assumes "t < length x"
  shows "attention_one cfg a msk x ! t =
         Linear_forward (c_proj a) (concat (map (\<lambda>h. attn_head_row cfg a msk x h t) [0..<n_heads cfg]))"
proof -
  define hs where "hs = n_embd cfg div n_heads cfg"
  define vh where "vh = split_heads (n_heads cfg) hs
     (map (\<lambda>r. take (n_embd cfg) (drop (2 * n_embd cfg) r)) (map (Linear_forward (c_attn a)) x))"
  define y where "y = map (\<lambda>h. matmul hs (attention_att cfg a msk x ! h) (vh ! h)) [0..<n_heads cfg]"
  have one: "attention_one cfg a msk x = map (Linear_forward (c_proj a)) (merge_heads (length x) y)"
    by (simp add: attention_one_def Let_def y_def vh_def hs_def)
  have vh: "vh ! h = map (attn_v cfg a h) x" if "h < n_heads cfg" for h
    using that by (simp add: vh_def split_heads_nth attn_v_def[abs_def] hs_def)
  have yh: "y ! h ! t = attn_head_row cfg a msk x h t" if "h < n_heads cfg" for h
  proof -
    have lt: "t < length (attention_att cfg a msk x ! h)"
      using assms length_attention_att_head[OF that] by simp
    have "y ! h ! t = map (\<lambda>c. (\<Sum>j\<leftarrow>[0..<length (vh ! h)].
             attention_att cfg a msk x ! h ! t ! j * vh ! h ! j ! c)) [0..<hs]"
      using that lt by (simp add: y_def matmul_def)
    also have "\<dots> = attn_head_row cfg a msk x h t"
      unfolding attn_head_row_def hs_def[symmetric] vh[OF that]
      by (intro map_cong refl arg_cong[where f = sum_list]) simp_all
    finally show ?thesis .
  qed
  have "merge_heads (length x) y ! t = concat (map (\<lambda>yh. yh ! t) y)"
    using assms by (simp add: merge_heads_def)
  also have "map (\<lambda>yh. yh ! t) y = map (\<lambda>h. y ! h ! t) [0..<n_heads cfg]"
    by (simp add: y_def)
  also have "\<dots> = map (\<lambda>h. attn_head_row cfg a msk x h t) [0..<n_heads cfg]"
    by (intro map_cong refl) (simp add: yh)
  finally show ?thesis
    using assms by (simp add: one merge_heads_def)
qed

lemma length_attention_one: "length (attention_one cfg a msk x) = length x"
  by (simp add: attention_one_def Let_def merge_heads_def)

lemma sum_upt_split_zero:
  fixes g :: "nat \<Rightarrow> real"
  assumes "n \<le> T" and "\<And>j. n \<le> j \<Longrightarrow> j < T \<Longrightarrow> g j = 0"
  shows "(\<Sum>j\<leftarrow>[0..<T]. g j) = (\<Sum>j\<leftarrow>[0..<n]. g j)"
proof -
  have "[0..<T] = [0..<n] @ [n..<T]"
    using assms(1) by (metis le_add_diff_inverse upt_add_eq_append zero_le)
  moreover have "(\<Sum>j\<leftarrow>[n..<T]. g j) = 0"
    using assms(2) by (simp add: sum_list_sum_nth)
  ultimately show ?thesis by simp
qed


lemma att_entry:
  assumes "h < n_heads cfg" "t < length x" "j < length x"
  shows "attention_att cfg a (causal_mask (length x)) x ! h ! t ! j =
         (if t < j then 0 else exp (attn_score cfg a h (x ! t) (x ! j))) /
         (\<Sum>k\<leftarrow>[0..<length x]. if t < k then 0 else exp (attn_score cfg a h (x ! t) (x ! k)))"
proof -
  define f where "f = (\<lambda>k. if causal_mask (length x) ! t ! k then NegInf
                           else Fin (attn_score cfg a h (x ! t) (x ! k)))"
  define e where "e = (\<lambda>k. if t < k then 0 else exp (attn_score cfg a h (x ! t) (x ! k)))"
  have fe: "exp_score (f k) = e k" if "k < length x" for k
    using that assms(2) by (simp add: f_def e_def causal_mask_nth)
  have sum: "(\<Sum>b\<leftarrow>map f [0..<length x]. exp_score b) = (\<Sum>k\<leftarrow>[0..<length x]. e k)"
    unfolding map_map comp_def
    by (intro arg_cong[where f = sum_list] map_cong refl) (simp add: fe)
  have "attention_att cfg a (causal_mask (length x)) x ! h ! t = softmax (map f [0..<length x])"
    unfolding f_def by (rule attention_att_row[OF assms(1,2)])
  then have "attention_att cfg a (causal_mask (length x)) x ! h ! t ! j =
             exp_score (f j) / (\<Sum>b\<leftarrow>map f [0..<length x]. exp_score b)"
    using assms(3) by (simp add: softmax_def)
  then show ?thesis
    unfolding sum fe[OF assms(3)] by (simp add: e_def)
qed

lemma head_row_prefix:
  assumes "h < n_heads cfg" "t < n" "n \<le> length x"
  shows "attn_head_row cfg a (causal_mask (length x)) x h t =
         attn_head_row cfg a (causal_mask n) (take n x) h t"
proof -
  define T where "T = length x"
  define e where "e = (\<lambda>k. if t < k then 0 else exp (attn_score cfg a h (x ! t) (x ! k)))"
  define S where "S = (\<Sum>k\<leftarrow>[0..<n]. e k)"
  have ln: "length (take n x) = n"
    using assms(3) by simp
  have tT: "t < T"
    using assms(2,3) by (simp add: T_def)
  have ST: "(\<Sum>k\<leftarrow>[0..<T]. e k) = S"
    unfolding S_def using assms(2,3)
    by (intro sum_upt_split_zero) (simp_all add: T_def e_def)
  have full: "attention_att cfg a (causal_mask T) x ! h ! t ! j = e j / S" if "j < T" for j
    using att_entry[OF assms(1), of t x j a] that tT ST
    by (simp add: T_def e_def)
  have pre: "attention_att cfg a (causal_mask n) (take n x) ! h ! t ! j = e j / S" if "j < n" for j
  proof -
    have "(\<Sum>k\<leftarrow>[0..<n]. if t < k then 0
              else exp (attn_score cfg a h (take n x ! t) (take n x ! k))) = S"
      unfolding S_def
      using assms(2) by (intro arg_cong[where f = sum_list] map_cong refl) (simp add: e_def)
    moreover note att_entry[OF assms(1), of t "take n x" j a, unfolded ln, OF assms(2) that]
    ultimately show ?thesis
      using that assms(2) by (simp add: e_def)
  qed
  have col: "(\<Sum>j\<leftarrow>[0..<T]. attention_att cfg a (causal_mask T) x ! h ! t ! j * attn_v cfg a h (x ! j) ! c) =
             (\<Sum>j\<leftarrow>[0..<n]. attention_att cfg a (causal_mask n) (take n x) ! h ! t ! j *
                              attn_v cfg a h (take n x ! j) ! c)" for c
  proof -
    have "(\<Sum>j\<leftarrow>[0..<T]. attention_att cfg a (causal_mask T) x ! h ! t ! j * attn_v cfg a h (x ! j) ! c) =
          (\<Sum>j\<leftarrow>[0..<T]. e j / S * attn_v cfg a h (x ! j) ! c)"
      by (intro arg_cong[where f = sum_list] map_cong refl) (simp add: full)
    also have "\<dots> = (\<Sum>j\<leftarrow>[0..<n]. e j / S * attn_v cfg a h (x ! j) ! c)"
      using assms(2,3) by (intro sum_upt_split_zero) (simp_all add: T_def e_def)
    also have "\<dots> = (\<Sum>j\<leftarrow>[0..<n]. attention_att cfg a (causal_mask n) (take n x) ! h ! t ! j *
                              attn_v cfg a h (take n x ! j) ! c)"
      by (intro arg_cong[where f = sum_list] map_cong refl) (simp add: pre)
    finally show ?thesis .
  qed
  show ?thesis
    unfolding attn_head_row_def T_def[symmetric] ln col ..
qed

lemma attention_one_prefix:
  assumes "n \<le> length x"
  shows "take n (attention_one cfg a (causal_mask (length x)) x) =
         attention_one cfg a (causal_mask n) (take n x)"
proof (rule nth_equalityI)
  show "length (take n (attention_one cfg a (causal_mask (length x)) x)) =
        length (attention_one cfg a (causal_mask n) (take n x))"
    using assms by (simp add: length_attention_one)
next
  fix t assume "t < length (take n (attention_one cfg a (causal_mask (length x)) x))"
  then have t: "t < n"
    by simp
  have tx: "t < length x" and tp: "t < length (take n x)"
    using t assms by simp_all
  have rows: "map (\<lambda>h. attn_head_row cfg a (causal_mask (length x)) x h t) [0..<n_heads cfg] =
              map (\<lambda>h. attn_head_row cfg a (causal_mask n) (take n x) h t) [0..<n_heads cfg]"
    by (intro map_cong refl) (simp add: head_row_prefix[OF _ t assms])
  show "take n (attention_one cfg a (causal_mask (length x)) x) ! t =
        attention_one cfg a (causal_mask n) (take n x) ! t"
    using t by (simp add: attention_one_row[OF tx] attention_one_row[OF tp] rows)
qed

lemma seqs_length: "list_all (\<lambda>xb. length xb = T) x \<Longrightarrow> xb \<in> set x \<Longrightarrow> length xb = T"
  by (simp add: list_all_iff)

lemma attention_forward_ok:
  assumes "heads_ok cfg" "T \<le> max_seq_len cfg"
  shows "CausalSelfAttention_forward cfg a T x = Inr (map (attention_one cfg a (causal_mask T)) x)"
  using assms(1) by (simp add: CausalSelfAttention_forward_def Let_def heads_ok_def attn_mask_causal[OF assms(2)])

lemma tensor_add_map:
  "tensor_add x (map g x) = map (\<lambda>xb. seq_add xb (g xb)) x"
proof -
  have "zip x (map g x) = map (\<lambda>xb. (xb, g xb)) x"
    by (induction x) simp_all
  then show ?thesis
    by (simp add: tensor_add_def seq_add_def[abs_def] comp_def)
qed

lemma FeedForward_forward_map:
  "FeedForward_forward f x = map (map (mlp_row f)) x"
  by (simp add: FeedForward_forward_def Let_def mlp_row_def[abs_def] comp_def)

lemma block_forward_ok:
  assumes "heads_ok cfg" "T \<le> max_seq_len cfg" "list_all (\<lambda>xb. length xb = T) x"
  shows "TransformerBlock_forward cfg blk T x = Inr (map (block_seq cfg blk) x)"
proof -
  define g where "g = (\<lambda>xb. attention_one cfg (attn blk) (causal_mask (length xb))
                            (map (LayerNorm_forward (ln_1 blk)) xb))"
  define k where "k = (\<lambda>x1. map (mlp_row (mlp blk)) (map (LayerNorm_forward (ln_2 blk)) x1))"
  have att: "map (attention_one cfg (attn blk) (causal_mask T)) (map (map (LayerNorm_forward (ln_1 blk))) x) =
             map g x"
    unfolding map_map comp_def g_def
    by (intro map_cong refl) (simp add: seqs_length[OF assms(3)])
  have x1: "tensor_add x (map g x) = map (\<lambda>xb. seq_add xb (g xb)) x"
    by (rule tensor_add_map)
  have ff: "FeedForward_forward (mlp blk) (map (map (LayerNorm_forward (ln_2 blk))) y) = map k y" for y
    by (simp add: FeedForward_forward_map k_def comp_def)
  have bs: "block_seq cfg blk xb = seq_add (seq_add xb (g xb)) (k (seq_add xb (g xb)))" for xb
    by (simp add: block_seq_def Let_def g_def k_def)
  have "TransformerBlock_forward cfg blk T x =
        Inr (tensor_add (tensor_add x (map g x))
               (FeedForward_forward (mlp blk)
                  (map (map (LayerNorm_forward (ln_2 blk))) (tensor_add x (map g x)))))"
    unfolding TransformerBlock_forward_def attention_forward_ok[OF assms(1,2)] att
    by (simp add: Let_def)
  also have "\<dots> =
        Inr (tensor_add (map (\<lambda>xb. seq_add xb (g xb)) x) (map k (map (\<lambda>xb. seq_add xb (g xb)) x)))"
    unfolding x1 ff ..
  also have "tensor_add (map (\<lambda>xb. seq_add xb (g xb)) x) (map k (map (\<lambda>xb. seq_add xb (g xb)) x)) =
             map (\<lambda>y. seq_add y (k y)) (map (\<lambda>xb. seq_add xb (g xb)) x)"
    by (rule tensor_add_map)
  also have "\<dots> = map (block_seq cfg blk) x"
    by (simp add: bs comp_def)
  finally show ?thesis .
qed

lemma length_seq_add: "length (seq_add xb yb) = min (length xb) (length yb)"
  by (simp add: seq_add_def)

lemma take_seq_add: "take n (seq_add xb yb) = seq_add (take n xb) (take n yb)"
  by (simp add: seq_add_def take_map take_zip)

lemma length_block_seq: "length (block_seq cfg blk xb) = length xb"
  by (simp add: block_seq_def Let_def length_seq_add length_attention_one)

lemma block_seq_prefix:
  assumes "n \<le> length xb"
  shows "take n (block_seq cfg blk xb) = block_seq cfg blk (take n xb)"
proof -
  have len: "length (take n xb) = n"
    using assms by simp
  have a: "take n (attention_one cfg (attn blk) (causal_mask (length xb))
                     (map (LayerNorm_forward (ln_1 blk)) xb)) =
           attention_one cfg (attn blk) (causal_mask n) (map (LayerNorm_forward (ln_1 blk)) (take n xb))"
    using attention_one_prefix[of n "map (LayerNorm_forward (ln_1 blk)) xb" cfg "attn blk"] assms
    by (simp add: take_map)
  show ?thesis
    unfolding block_seq_def Let_def take_seq_add take_map a len ..
qed

lemma length_blocks_seq: "length (blocks_seq cfg blks xb) = length xb"
  by (induction blks arbitrary: xb) (simp_all add: length_block_seq)

lemma blocks_seq_prefix:
  "n \<le> length xb \<Longrightarrow> take n (blocks_seq cfg blks xb) = blocks_seq cfg blks (take n xb)"
  by (induction blks arbitrary: xb) (simp_all add: block_seq_prefix length_block_seq)

lemma blocks_forward_ok:
  assumes "blks = [] \<or> heads_ok cfg" "T \<le> max_seq_len cfg" "list_all (\<lambda>xb. length xb = T) x"
  shows "blocks_forward cfg blks T x = Inr (map (blocks_seq cfg blks) x)"
  using assms
proof (induction blks arbitrary: x)
  case Nil
  then show ?case by simp
next
  case (Cons blk blks)
  then have ok: "heads_ok cfg" by simp
  have step: "TransformerBlock_forward cfg blk T x = Inr (map (block_seq cfg blk) x)"
    by (rule block_forward_ok[OF ok Cons.prems(2,3)])
  have sh: "list_all (\<lambda>xb. length xb = T) (map (block_seq cfg blk) x)"
    using Cons.prems(3) by (simp add: list_all_iff length_block_seq)
  show ?case
    using Cons.IH[OF _ Cons.prems(2) sh] ok by (simp add: step comp_def)
qed

lemma length_embed_seq: "length (embed_seq m r) = length r"
  by (simp add: embed_seq_def)

lemma embed_seq_prefix: "take n (embed_seq m r) = embed_seq m (take n r)"
proof -
  have "take n [0..<length r] = [0..<min (length r) n]"
    by (cases "n \<le> length r") (simp_all add: min_def)
  then show ?thesis
    by (simp add: embed_seq_def take_map)
qed

lemma length_logits_seq: "length (logits_seq cfg m r) = length r"
  by (simp add: logits_seq_def length_blocks_seq length_embed_seq)

lemma logits_seq_prefix:
  assumes "n \<le> length r"
  shows "take n (logits_seq cfg m r) = logits_seq cfg m (take n r)"
  using assms
  by (simp add: logits_seq_def take_map blocks_seq_prefix length_embed_seq embed_seq_prefix)

lemma logits_seq_take_any:
  "take n (logits_seq cfg m r) = logits_seq cfg m (take n r)"
proof (cases "n \<le> length r")
  case True
  then show ?thesis by (rule logits_seq_prefix)
next
  case False
  then show ?thesis by (simp add: length_logits_seq)
qed

lemma init_heads_ok:
  assumes "Transformer_init cfg = Inr ds" "length (transformer_h m) = n_layers cfg"
  shows "transformer_h m = [] \<or> heads_ok cfg"
proof (cases "n_layers cfg")
  case 0
  then show ?thesis using assms(2) by simp
next
  case (Suc k)
  then obtain d where "TransformerBlock_init cfg = Inr d"
    using assms(1) by (auto simp: Transformer_init_def split: sum.splits)
  then have "heads_ok cfg"
    by (auto simp: TransformerBlock_init_def attention_init_cases heads_ok_def split: if_splits)
  then show ?thesis ..
qed

lemma forward_run:
  assumes "transformer_h m = [] \<or> heads_ok cfg"
    and "ncols idx \<le> max_seq_len cfg" "ncols idx \<le> length (wpe m)"
    and "valid_ids (length (wte m)) (rows idx)" "wf_long_tensor2 idx"
  shows "Transformer_forward cfg m idx targets =
     (case targets of
        None \<Rightarrow> Inr (map (logits_seq cfg m) (rows idx), None)
      | Some tg \<Rightarrow>
          if length (weight (lm_head m)) = 0 then Inl RuntimeError
          else (case cross_entropy (length (weight (lm_head m)))
                       (concat (map (logits_seq cfg m) (rows idx))) (concat (rows tg)) of
                  Inl e \<Rightarrow> Inl e
                | Inr l \<Rightarrow> Inr (map (logits_seq cfg m) (rows idx), Some l)))"
proof -
  have len: "length r = ncols idx" if "r \<in> set (rows idx)" for r
    using assms(5) that by (simp add: wf_long_tensor2_def list_all_iff)
  have emb: "map (\<lambda>r. map (\<lambda>t. map (\<lambda>(a, b). a + b) (zip (wte m ! nat (r ! t)) (wpe m ! t)))
                        [0..<ncols idx]) (rows idx) = map (embed_seq m) (rows idx)"
    by (intro map_cong refl) (simp add: embed_seq_def len)
  have sh: "list_all (\<lambda>xb. length xb = ncols idx) (map (embed_seq m) (rows idx))"
    by (simp add: list_all_iff length_embed_seq len)
  have blocks: "blocks_forward cfg (transformer_h m) (ncols idx) (map (embed_seq m) (rows idx)) =
                Inr (map (blocks_seq cfg (transformer_h m)) (map (embed_seq m) (rows idx)))"
    by (rule blocks_forward_ok[OF assms(1,2) sh])
  have lg: "map (map (Linear_forward (lm_head m)))
              (map (map (LayerNorm_forward (ln_f m)))
                 (map (blocks_seq cfg (transformer_h m)) (map (embed_seq m) (rows idx)))) =
            map (logits_seq cfg m) (rows idx)"
    by (simp add: logits_seq_def[abs_def] comp_def)
  show ?thesis
    unfolding Transformer_forward_def Let_def emb blocks sum.case lg
    using assms(2,3,4) by (simp split: option.splits)
qed


lemma forward_logits:
  assumes "Transformer_init cfg = Inr ds" and "wf_Transformer cfg m"
    and "wf_long_tensor2 idx" and "ncols idx \<le> max_seq_len cfg"
    and "valid_ids (vocab_size cfg) (rows idx)"
  shows "Transformer_forward cfg m idx None = Inr (map (logits_seq cfg m) (rows idx), None)"
    and "Transformer_forward cfg m idx tg = Inr (lg, l) \<Longrightarrow> lg = map (logits_seq cfg m) (rows idx)"
proof -
  have sizes: "length (wte m) = vocab_size cfg" "length (wpe m) = max_seq_len cfg"
              "length (transformer_h m) = n_layers cfg"
    using assms(2) by (simp_all add: wf_Transformer_def wf_mat_def)
  have p3: "ncols idx \<le> length (wpe m)" and p4: "valid_ids (length (wte m)) (rows idx)"
    using assms(4,5) by (simp_all add: sizes)
  note run = forward_run[OF init_heads_ok[OF assms(1) sizes(3)] assms(4) p3 p4 assms(3)]
  show "Transformer_forward cfg m idx None = Inr (map (logits_seq cfg m) (rows idx), None)"
    by (simp add: run)
  show "lg = map (logits_seq cfg m) (rows idx)" if "Transformer_forward cfg m idx tg = Inr (lg, l)"
  proof (cases tg)
    case None
    then show ?thesis using that by (simp add: run)
  next
    case (Some t)
    then show ?thesis using that by (simp add: run split: if_splits sum.splits)
  qed
qed

text \<open>
  Claim C1, as the code has it. Over exact real arithmetic, for a constructed model (any
  parameter values of the constructor's shapes) and two batches of token ids with
  \<open>T \<le> max_seq_len\<close> that agree on the positions \<open>0..i\<close> of every sequence, both forward runs
  return, and their logits agree at every position up to \<open>i\<close>: the logits at a position do
  not depend on the tokens after it. The logits are the same with and without targets.
  The float32 program computes these logits up to rounding only, and not at all where a
  value overflows (section on overflow in float32 below).
\<close>

theorem forward_causal:
  assumes "Transformer_init cfg = Inr ds" and "wf_Transformer cfg m"
    and "wf_long_tensor2 idx" and "wf_long_tensor2 idx'"
    and "ncols idx \<le> max_seq_len cfg" and "ncols idx' \<le> max_seq_len cfg"
    and "valid_ids (vocab_size cfg) (rows idx)" and "valid_ids (vocab_size cfg) (rows idx')"
    and "map (take (Suc i)) (rows idx') = map (take (Suc i)) (rows idx)"
  shows "\<exists>logits logits'.
      Transformer_forward cfg m idx None = Inr (logits, None) \<and>
      Transformer_forward cfg m idx' None = Inr (logits', None) \<and>
      (\<forall>tg lg l. Transformer_forward cfg m idx tg = Inr (lg, l) \<longrightarrow> lg = logits) \<and>
      (\<forall>tg lg l. Transformer_forward cfg m idx' tg = Inr (lg, l) \<longrightarrow> lg = logits') \<and>
      length logits = length (rows idx) \<and> length logits' = length (rows idx) \<and>
      map (take (Suc i)) logits' = map (take (Suc i)) logits \<and>
      (\<forall>b t. b < length (rows idx) \<and> t \<le> i \<longrightarrow> logits' ! b ! t = logits ! b ! t)"
proof -
  define logits where "logits = map (logits_seq cfg m) (rows idx)"
  define logits' where "logits' = map (logits_seq cfg m) (rows idx')"
  note r = forward_logits[OF assms(1,2,3,5,7)]
  note r' = forward_logits[OF assms(1,2,4,6,8)]
  have len: "length (rows idx') = length (rows idx)"
    using assms(9) by (metis length_map)
  have pre: "map (take n) (map (logits_seq cfg m) rs) = map (logits_seq cfg m) (map (take n) rs)" for n rs
    by (simp add: logits_seq_take_any comp_def)
  have eq: "map (take (Suc i)) logits' = map (take (Suc i)) logits"
    unfolding logits_def logits'_def pre assms(9) ..
  have pt: "logits' ! b ! t = logits ! b ! t" if "b < length (rows idx)" "t \<le> i" for b t
  proof -
    have "take (Suc i) (logits' ! b) = take (Suc i) (logits ! b)"
      using arg_cong[OF eq, of "\<lambda>z. z ! b"] that(1) len
      by (simp add: logits_def logits'_def)
    then have "take (Suc i) (logits' ! b) ! t = take (Suc i) (logits ! b) ! t"
      by simp
    then show ?thesis using that(2) by simp
  qed
  have a: "Transformer_forward cfg m idx None = Inr (logits, None)"
    unfolding logits_def by (rule r(1))
  have a': "Transformer_forward cfg m idx' None = Inr (logits', None)"
    unfolding logits'_def by (rule r'(1))
  have b: "\<forall>tg lg l. Transformer_forward cfg m idx tg = Inr (lg, l) \<longrightarrow> lg = logits"
    unfolding logits_def using r(2) by blast
  have b': "\<forall>tg lg l. Transformer_forward cfg m idx' tg = Inr (lg, l) \<longrightarrow> lg = logits'"
    unfolding logits'_def using r'(2) by blast
  have c: "length logits = length (rows idx)" "length logits' = length (rows idx)"
    by (simp_all add: logits_def logits'_def len)
  have d: "\<forall>b t. b < length (rows idx) \<and> t \<le> i \<longrightarrow> logits' ! b ! t = logits ! b ! t"
    using pt by blast
  show ?thesis
    apply (rule exI[of _ logits], rule exI[of _ logits'])
    apply (intro conjI)
    apply (rule a, rule a', rule b, rule b', rule c(1), rule c(2), rule eq, rule d)
    done
qed


lemma example_init: "Transformer_init example_config = Inr [1]"
  by (simp add: Transformer_init_def example_config_def TransformerBlock_init_def
      CausalSelfAttention_init_def)

lemma example_wf: "wf_Transformer example_config example_model"
  by (simp add: wf_Transformer_def example_config_def example_model_def example_block_def
      example_norm_def wf_TransformerBlock_def wf_mat_def wf_Linear_def wf_LayerNorm_def)

theorem forward_causal_witness:
  "\<exists>logits logits'.
     Transformer_forward example_config example_model \<lparr>ncols = 2, rows = [[0, 1]]\<rparr> None =
       Inr (logits, None) \<and>
     Transformer_forward example_config example_model \<lparr>ncols = 2, rows = [[0, 2]]\<rparr> None =
       Inr (logits', None) \<and>
     logits' ! 0 ! 0 = logits ! 0 ! 0"
proof -
  let ?idx = "\<lparr>ncols = 2, rows = [[0, 1]]\<rparr>"
  let ?idx' = "\<lparr>ncols = 2, rows = [[0, 2]]\<rparr>"
  have w: "wf_long_tensor2 ?idx" "wf_long_tensor2 ?idx'"
    by (simp_all add: wf_long_tensor2_def)
  have t: "ncols ?idx \<le> max_seq_len example_config" "ncols ?idx' \<le> max_seq_len example_config"
    by (simp_all add: example_config_def)
  have v: "valid_ids (vocab_size example_config) (rows ?idx)"
          "valid_ids (vocab_size example_config) (rows ?idx')"
    by (simp_all add: valid_ids_def example_config_def)
  have agree: "map (take (Suc 0)) (rows ?idx') = map (take (Suc 0)) (rows ?idx)"
    by simp
  from forward_causal[OF example_init example_wf w t v agree] obtain logits logits' where
    "Transformer_forward example_config example_model ?idx None = Inr (logits, None)"
    "Transformer_forward example_config example_model ?idx' None = Inr (logits', None)"
    "\<forall>b t. b < length (rows ?idx) \<and> t \<le> 0 \<longrightarrow> logits' ! b ! t = logits ! b ! t"
    by blast
  then show ?thesis by auto
qed

section \<open>Shape of the logits and the loss\<close>

lemma zip_nth_upt:
  assumes "length xs = n" "length ys = n"
  shows "zip xs ys = map (\<lambda>i. (xs ! i, ys ! i)) [0..<n]"
  using assms by (intro nth_equalityI) simp_all

lemma sum_zip_nth:
  fixes f :: "'a \<Rightarrow> 'b \<Rightarrow> real"
  assumes "length xs = n" "length ys = n"
  shows "(\<Sum>(a, b)\<leftarrow>zip xs ys. f a b) = (\<Sum>i\<leftarrow>[0..<n]. f (xs ! i) (ys ! i))"
  by (simp add: zip_nth_upt[OF assms] comp_def)


















section \<open>Overflow in float32\<close>

text \<open>
  The forward pass of \<open>overflow_model\<close> over the float32 special values, layer by layer, on
  the token sequences \<open>[0, 0]\<close> and \<open>[0, 1]\<close>.
\<close>

lemma sqrt_example: "sqrt (121 / 4000000) = 11 / 2000"
  by (rule real_sqrt_unique) (simp_all add: power2_eq_square)

lemma upt_small: "[0..<2] = [0, 1]" "[0..<Suc 0] = [0]" "[0..<1] = [0]"
  by (simp_all add: upt_rec)

lemma ln_tok:
  "LayerNorm_forward_f32 example_norm [Fl (- (9 / 2000)), Fl (9 / 2000)] = [Fl (- (9 / 11)), Fl (9 / 11)]"
  "LayerNorm_forward_f32 example_norm [Fl (9 / 2000), Fl (- (9 / 2000))] = [Fl (9 / 11), Fl (- (9 / 11))]"
  by (simp_all add: LayerNorm_forward_f32_def example_norm_def mean_f32_def variance_f32_def fsum_def
      fsub_def to_f32_def overflow_f32_def upt_small sqrt_example)

lemma ln_nan:
  "LayerNorm_forward_f32 example_norm [NaN32, NaN32] = [NaN32, NaN32]"
  by (simp add: LayerNorm_forward_f32_def example_norm_def mean_f32_def variance_f32_def fsum_def
      fsub_def to_f32_def overflow_f32_def upt_small)

lemma c_attn_tok:
  "Linear_forward_f32 (c_attn (attn overflow_block)) [Fl (- (9 / 11)), Fl (9 / 11)] =
     [Fl 0, Fl 0, Fl 0, Fl 0, Fl (- (7 / 11) * 2 ^ 127), Fl 0]"
  "Linear_forward_f32 (c_attn (attn overflow_block)) [Fl (9 / 11), Fl (- (9 / 11))] =
     [Fl 0, Fl 0, Fl 0, Fl 0, PInf, Fl 0]"
  by (simp_all add: Linear_forward_f32_def overflow_block_def dot_f32_def fsum_def to_f32_def overflow_f32_def)

lemma mask2: "attn_mask 2 2 = Inr [[False, True], [False, False]]"
  by (simp add: attn_mask_def tril_ones_def upt_small)

lemma softmax_rows:
  "softmax_f32 [Fl 0, MInf] = [Fl 1, Fl 0]"
  "softmax_f32 [Fl 0, Fl 0] = [Fl (1 / 2), Fl (1 / 2)]"
  by (simp_all add: softmax_f32_def fmaximum_def fsum_def fsub_def to_f32_def overflow_f32_def Let_def)

lemma attention_future_overflow:
  "attention_one_f32 overflow_config (attn overflow_block) [[False, True], [False, False]]
     [[Fl (- (9 / 11)), Fl (9 / 11)], [Fl (9 / 11), Fl (- (9 / 11))]] =
   [[NaN32, NaN32], [NaN32, NaN32]]"
  apply (simp only: attention_one_f32_def Let_def list.map c_attn_tok)
  apply (simp add: overflow_config_def split_heads_def merge_heads_def attention_scores_f32_def
      masked_fill_f32_def matmul_f32_def dot_f32_def fsum_def to_f32_def overflow_f32_def
      upt_small softmax_rows signed_inf_def)
  apply (simp add: Linear_forward_f32_def overflow_block_def dot_f32_def fsum_def to_f32_def
      overflow_f32_def)
  done

lemma attention_no_overflow:
  "attention_one_f32 overflow_config (attn overflow_block) [[False, True], [False, False]]
     [[Fl (- (9 / 11)), Fl (9 / 11)], [Fl (- (9 / 11)), Fl (9 / 11)]] =
   [[Fl 0, Fl 0], [Fl 0, Fl 0]]"
  apply (simp only: attention_one_f32_def Let_def list.map c_attn_tok)
  apply (simp add: overflow_config_def split_heads_def merge_heads_def attention_scores_f32_def
      masked_fill_f32_def matmul_f32_def dot_f32_def fsum_def to_f32_def overflow_f32_def
      upt_small softmax_rows signed_inf_def)
  apply (simp add: Linear_forward_f32_def overflow_block_def dot_f32_def fsum_def to_f32_def
      overflow_f32_def)
  done

lemma gelu_values: "gelu_tanh_f32 (Fl 0) = Fl 0" "gelu_tanh_f32 NaN32 = NaN32"
  by (simp_all add: gelu_tanh_f32_def to_f32_def overflow_f32_def)

lemma mlp_values:
  "FeedForward_forward_f32 (mlp overflow_block) [[[Fl (- (9 / 11)), Fl (9 / 11)], [Fl (- (9 / 11)), Fl (9 / 11)]]] =
     [[[Fl 0, Fl 0], [Fl 0, Fl 0]]]"
  "FeedForward_forward_f32 (mlp overflow_block) [[[NaN32, NaN32], [NaN32, NaN32]]] =
     [[[NaN32, NaN32], [NaN32, NaN32]]]"
  by (simp_all add: FeedForward_forward_f32_def overflow_block_def Linear_forward_f32_def dot_f32_def
      fsum_def to_f32_def overflow_f32_def gelu_values)

lemma block_future_overflow:
  "TransformerBlock_forward_f32 overflow_config overflow_block 2
     [[[Fl (- (9 / 2000)), Fl (9 / 2000)], [Fl (9 / 2000), Fl (- (9 / 2000))]]] =
   Inr [[[NaN32, NaN32], [NaN32, NaN32]]]"
proof -
  have l1: "ln_1 overflow_block = example_norm" "ln_2 overflow_block = example_norm"
    by (simp_all add: overflow_block_def)
  have m: "attn_mask (max_seq_len overflow_config) 2 = Inr [[False, True], [False, False]]"
    using mask2 by (simp add: overflow_config_def)
  have a: "CausalSelfAttention_forward_f32 overflow_config (attn overflow_block) 2
             [[[Fl (- (9 / 11)), Fl (9 / 11)], [Fl (9 / 11), Fl (- (9 / 11))]]] =
           Inr [[[NaN32, NaN32], [NaN32, NaN32]]]"
    unfolding CausalSelfAttention_forward_f32_def Let_def m
    by (simp add: attention_future_overflow) (simp add: overflow_config_def)
  show ?thesis
    unfolding TransformerBlock_forward_f32_def l1
    by (simp add: ln_tok a tensor_add_f32_def ln_nan mlp_values)
qed

lemma block_no_overflow:
  "TransformerBlock_forward_f32 overflow_config overflow_block 2
     [[[Fl (- (9 / 2000)), Fl (9 / 2000)], [Fl (- (9 / 2000)), Fl (9 / 2000)]]] =
   Inr [[[Fl (- (9 / 2000)), Fl (9 / 2000)], [Fl (- (9 / 2000)), Fl (9 / 2000)]]]"
proof -
  have l1: "ln_1 overflow_block = example_norm" "ln_2 overflow_block = example_norm"
    by (simp_all add: overflow_block_def)
  have m: "attn_mask (max_seq_len overflow_config) 2 = Inr [[False, True], [False, False]]"
    using mask2 by (simp add: overflow_config_def)
  have a: "CausalSelfAttention_forward_f32 overflow_config (attn overflow_block) 2
             [[[Fl (- (9 / 11)), Fl (9 / 11)], [Fl (- (9 / 11)), Fl (9 / 11)]]] =
           Inr [[[Fl 0, Fl 0], [Fl 0, Fl 0]]]"
    unfolding CausalSelfAttention_forward_f32_def Let_def m
    by (simp add: attention_no_overflow) (simp add: overflow_config_def)
  show ?thesis
    unfolding TransformerBlock_forward_f32_def l1
    by (simp add: ln_tok a tensor_add_f32_def mlp_values to_f32_def overflow_f32_def)
qed

lemma embed_values:
  "map (\<lambda>r. map (\<lambda>t. map (\<lambda>(a, b). fadd (to_f32 a) (to_f32 b))
                        (zip (wte overflow_model ! nat (r ! t)) (wpe overflow_model ! t)))
            [0..<2]) [[0, 1]] =
   [[[Fl (- (9 / 2000)), Fl (9 / 2000)], [Fl (9 / 2000), Fl (- (9 / 2000))]]]"
  "map (\<lambda>r. map (\<lambda>t. map (\<lambda>(a, b). fadd (to_f32 a) (to_f32 b))
                        (zip (wte overflow_model ! nat (r ! t)) (wpe overflow_model ! t)))
            [0..<2]) [[0, 0]] =
   [[[Fl (- (9 / 2000)), Fl (9 / 2000)], [Fl (- (9 / 2000)), Fl (9 / 2000)]]]"
  by (simp_all add: overflow_model_def upt_small to_f32_def overflow_f32_def)

lemma lm_head_values:
  "Linear_forward_f32 (lm_head overflow_model) [Fl (- (9 / 11)), Fl (9 / 11)] =
     [Fl (18 / 11 * 2 ^ 127), Fl (- (18 / 11) * 2 ^ 127)]"
  "Linear_forward_f32 (lm_head overflow_model) [NaN32, NaN32] = [NaN32, NaN32]"
  by (simp_all add: Linear_forward_f32_def overflow_model_def dot_f32_def fsum_def to_f32_def
      overflow_f32_def)

lemma forward_f32_future_overflow:
  "Transformer_forward_f32 overflow_config overflow_model \<lparr>ncols = 2, rows = [[0, 1]]\<rparr> None =
     Inr ([[[NaN32, NaN32], [NaN32, NaN32]]], None)"
proof -
  have f: "max_seq_len overflow_config = 2" "length (wpe overflow_model) = 2"
    "length (wte overflow_model) = 2" "transformer_h overflow_model = [overflow_block]"
    "ln_f overflow_model = example_norm" "wte overflow_model \<noteq> []"
    by (simp_all add: overflow_config_def overflow_model_def)
  show ?thesis
    unfolding Transformer_forward_f32_def Let_def
    apply (simp only: long_tensor2.simps f embed_values(1))
    apply (simp add: valid_ids_def block_future_overflow ln_nan lm_head_values)
    done
qed

lemma forward_f32_no_overflow:
  "Transformer_forward_f32 overflow_config overflow_model \<lparr>ncols = 2, rows = [[0, 0]]\<rparr> None =
     Inr ([[[Fl (18 / 11 * 2 ^ 127), Fl (- (18 / 11) * 2 ^ 127)],
            [Fl (18 / 11 * 2 ^ 127), Fl (- (18 / 11) * 2 ^ 127)]]], None)"
proof -
  have f: "max_seq_len overflow_config = 2" "length (wpe overflow_model) = 2"
    "length (wte overflow_model) = 2" "transformer_h overflow_model = [overflow_block]"
    "ln_f overflow_model = example_norm" "wte overflow_model \<noteq> []"
    by (simp_all add: overflow_config_def overflow_model_def)
  show ?thesis
    unfolding Transformer_forward_f32_def Let_def
    apply (simp only: long_tensor2.simps f embed_values(2))
    apply (simp add: valid_ids_def block_no_overflow ln_tok lm_head_values)
    done
qed

lemma nll_f32_overflow:
  assumes "overflow_f32 \<le> 2 * a"
  shows "fneg (log_softmax_f32 [Fl a, Fl (- a)] ! Suc 0) = PInf"
proof -
  have pos: "0 < overflow_f32" "\<not> overflow_f32 \<le> 1" "\<not> 1 \<le> - overflow_f32"
    by (simp_all add: overflow_f32_def)
  then have a: "0 < a" "max a (- a) = a"
    using assms by simp_all
  have m: "fmaximum [Fl a, Fl (- a)] = Fl a"
    by (simp add: fmaximum_def a)
  have d: "fsub (Fl (- a)) (Fl a) = MInf" "fsub (Fl a) (Fl a) = Fl 0" "fsub MInf (Fl 0) = MInf"
    using assms a pos by (simp_all add: fsub_def to_f32_def)
  have s: "fsum [to_f32 1, Fl 0] = Fl 1"
    using pos by (simp add: fsum_def to_f32_def)
  show ?thesis
    unfolding log_softmax_f32_def Let_def m
    by (simp add: d s)
qed

lemma forward_f32_targets:
  assumes "Transformer_forward_f32 cfg m idx None = Inr (lg, None)"
    and "length (weight (lm_head m)) \<noteq> 0"
  shows "Transformer_forward_f32 cfg m idx (Some tg) =
           (case cross_entropy_f32 (length (weight (lm_head m))) (concat lg) (concat (rows tg)) of
              Inl e \<Rightarrow> Inl e
            | Inr l \<Rightarrow> Inr (lg, Some l))"
  using assms
  by (auto simp: Transformer_forward_f32_def Let_def split: if_splits sum.splits)

lemma cross_entropy_f32_overflow:
  assumes "overflow_f32 \<le> 2 * a"
  shows "cross_entropy_f32 2 [[Fl a, Fl (- a)], [Fl a, Fl (- a)]] [1, 1] = Inr PInf"
  unfolding cross_entropy_f32_def Let_def
  by (simp add: nll_f32_overflow[OF assms] fsum_def signed_inf_def)

text \<open>
  On a valid batch with valid targets the float32 loss need not be finite: the logits
  of \<open>overflow_model\<close> are finite, their difference is not, and the loss is \<open>inf\<close>.
\<close>

lemma loss_f32_overflow:
  "Transformer_forward_f32 overflow_config overflow_model \<lparr>ncols = 2, rows = [[0, 0]]\<rparr>
     (Some \<lparr>ncols = 2, rows = [[1, 1]]\<rparr>) =
     Inr ([[[Fl (18 / 11 * 2 ^ 127), Fl (- (18 / 11) * 2 ^ 127)],
            [Fl (18 / 11 * 2 ^ 127), Fl (- (18 / 11) * 2 ^ 127)]]], Some PInf)"
proof -
  have V: "length (weight (lm_head overflow_model)) = 2"
    by (simp add: overflow_model_def)
  have big: "overflow_f32 \<le> 2 * (18 / 11 * 2 ^ 127)"
    by (simp add: overflow_f32_def)
  show ?thesis
    using forward_f32_targets[OF forward_f32_no_overflow, of "\<lparr>ncols = 2, rows = [[1, 1]]\<rparr>"]
      cross_entropy_f32_overflow[OF big]
    by (simp add: V)
qed

lemma overflow_init: "Transformer_init overflow_config = Inr [2]"
  by (simp add: Transformer_init_def overflow_config_def TransformerBlock_init_def
      CausalSelfAttention_init_def)

lemma overflow_wf: "wf_Transformer overflow_config overflow_model"
  by (simp add: wf_Transformer_def overflow_config_def overflow_model_def overflow_block_def
      example_norm_def wf_TransformerBlock_def wf_mat_def wf_Linear_def wf_LayerNorm_def)

text \<open>
  The claim as stated, for every parameter assignment, does not hold for the float32
  program. In \<open>overflow_model\<close> all parameters are finite floats. The sequences \<open>[0, 0]\<close> and
  \<open>[0, 1]\<close> agree at position \<open>0\<close>. With token \<open>1\<close> at position \<open>1\<close> the value projection of
  that position overflows to \<open>inf\<close>; its attention weight in row \<open>0\<close> is \<open>0\<close>, and \<open>att @ v\<close>
  computes \<open>0 * inf = NaN\<close>, so the logits at position \<open>0\<close> are \<open>NaN\<close>, where they are
  finite with token \<open>0\<close> at position \<open>1\<close>.
\<close>

theorem forward_f32_leak_counterexample:
  "Transformer_init overflow_config = Inr [2] \<and>
   wf_Transformer overflow_config overflow_model \<and>
   Transformer_forward_f32 overflow_config overflow_model \<lparr>ncols = 2, rows = [[0, 0]]\<rparr> None =
     Inr ([[[Fl (18 / 11 * 2 ^ 127), Fl (- (18 / 11) * 2 ^ 127)],
            [Fl (18 / 11 * 2 ^ 127), Fl (- (18 / 11) * 2 ^ 127)]]], None) \<and>
   Transformer_forward_f32 overflow_config overflow_model \<lparr>ncols = 2, rows = [[0, 1]]\<rparr> None =
     Inr ([[[NaN32, NaN32], [NaN32, NaN32]]], None)"
  using overflow_init overflow_wf forward_f32_no_overflow forward_f32_future_overflow
  by simp

section \<open>The feed-forward sublayer\<close>

lemma dot_index:
  assumes "length w = n" "length x = n"
  shows "dot w x = (\<Sum>e\<leftarrow>[0..<n]. w ! e * x ! e)"
  unfolding dot_def by (rule sum_zip_nth[OF assms])

lemma Linear_forward_entry:
  assumes "wf_Linear n_in n_out True l" "length x = n_in" "j < n_out"
  shows "length (Linear_forward l x) = n_out"
    and "\<exists>b. bias l = Some b \<and>
           Linear_forward l x ! j = (\<Sum>e\<leftarrow>[0..<n_in]. weight l ! j ! e * x ! e) + b ! j"
proof -
  from assms(1) obtain b where b: "bias l = Some b" "length b = n_out"
    by (auto simp: wf_Linear_def split: option.splits)
  have w: "length (weight l) = n_out" "length (weight l ! j) = n_in"
    using assms(1,3) by (simp_all add: wf_Linear_def wf_mat_def list_all_length)
  show "length (Linear_forward l x) = n_out"
    by (simp add: Linear_forward_def b w)
  have "Linear_forward l x ! j = dot (weight l ! j) x + b ! j"
    using assms(3) by (simp add: Linear_forward_def b w)
  then show "\<exists>b. bias l = Some b \<and>
           Linear_forward l x ! j = (\<Sum>e\<leftarrow>[0..<n_in]. weight l ! j ! e * x ! e) + b ! j"
    using b(1) dot_index[OF w(2) assms(2)] by simp
qed

lemma length_Linear_forward_bias:
  assumes "wf_Linear n_in n_out True l"
  shows "length (Linear_forward l x) = n_out"
proof -
  from assms obtain b where b: "bias l = Some b" "length b = n_out"
    by (auto simp: wf_Linear_def split: option.splits)
  have w: "length (weight l) = n_out"
    using assms by (simp add: wf_Linear_def wf_mat_def)
  show ?thesis
    by (simp add: Linear_forward_def b w)
qed

text \<open>
  Claim C8. Inside a block (whose constructor sets the hidden width to \<open>4 * n_embd\<close>), for an
  input of shape \<open>B \<times> T \<times> E\<close>, the output of \<open>FeedForward\<close> at batch element \<open>b\<close> and position
  \<open>t\<close> is: the linear expansion \<open>hidden = W\<^sub>f\<^sub>c x + b\<^sub>f\<^sub>c\<close> to width \<open>4E\<close>, the tanh
  approximation of GELU \<open>0.5 u (1 + tanh (sqrt (2/pi) (u + 0.044715 u\<^sup>3)))\<close> on every hidden
  entry, and the linear contraction \<open>W\<^sub>p\<^sub>r\<^sub>o\<^sub>j g + b\<^sub>p\<^sub>r\<^sub>o\<^sub>j\<close> back to width \<open>E\<close>; nothing else
  (no normalization, learned or not) enters the result, and the shape is kept.
\<close>

theorem feed_forward_formula:
  assumes "wf_TransformerBlock cfg blk"
    and "b < length x" and "t < length (x ! b)" and "length (x ! b ! t) = n_embd cfg"
  shows "\<exists>b_fc b_proj hidden.
     bias (c_fc (mlp blk)) = Some b_fc \<and> bias (mlp_c_proj (mlp blk)) = Some b_proj \<and>
     length hidden = 4 * n_embd cfg \<and>
     (\<forall>j < 4 * n_embd cfg.
        hidden ! j = (\<Sum>e\<leftarrow>[0..<n_embd cfg]. weight (c_fc (mlp blk)) ! j ! e * x ! b ! t ! e) + b_fc ! j) \<and>
     length (FeedForward_forward (mlp blk) x) = length x \<and>
     length (FeedForward_forward (mlp blk) x ! b) = length (x ! b) \<and>
     length (FeedForward_forward (mlp blk) x ! b ! t) = n_embd cfg \<and>
     (\<forall>k < n_embd cfg.
        FeedForward_forward (mlp blk) x ! b ! t ! k =
          (\<Sum>j\<leftarrow>[0..<4 * n_embd cfg].
             weight (mlp_c_proj (mlp blk)) ! k ! j *
             (0.5 * hidden ! j * (1 + tanh (sqrt (2 / pi) * (hidden ! j + 0.044715 * hidden ! j ^ 3)))))
          + b_proj ! k)"
proof -
  define E where "E = n_embd cfg"
  define hidden where "hidden = Linear_forward (c_fc (mlp blk)) (x ! b ! t)"
  have wfc: "wf_Linear E (4 * E) True (c_fc (mlp blk))"
    and wpr: "wf_Linear (4 * E) E True (mlp_c_proj (mlp blk))"
    using assms(1) by (simp_all add: wf_TransformerBlock_def E_def)
  from wfc obtain b_fc where bfc: "bias (c_fc (mlp blk)) = Some b_fc"
    by (auto simp: wf_Linear_def split: option.splits)
  from wpr obtain b_proj where bpr: "bias (mlp_c_proj (mlp blk)) = Some b_proj"
    by (auto simp: wf_Linear_def split: option.splits)
  have xl: "length (x ! b ! t) = E"
    using assms(4) by (simp add: E_def)
  have hl: "length hidden = 4 * E"
    unfolding hidden_def by (rule length_Linear_forward_bias[OF wfc])
  have hj: "hidden ! j = (\<Sum>e\<leftarrow>[0..<E]. weight (c_fc (mlp blk)) ! j ! e * x ! b ! t ! e) + b_fc ! j"
    if "j < 4 * E" for j
    using Linear_forward_entry(2)[OF wfc xl that] bfc by (simp add: hidden_def)
  have gl: "length (map gelu_tanh hidden) = 4 * E"
    by (simp add: hl)
  have ff: "FeedForward_forward (mlp blk) x ! b ! t =
            Linear_forward (mlp_c_proj (mlp blk)) (map gelu_tanh hidden)"
    using assms(2,3) by (simp add: FeedForward_forward_map mlp_row_def hidden_def)
  have ol: "length (FeedForward_forward (mlp blk) x ! b ! t) = E"
    unfolding ff by (rule length_Linear_forward_bias[OF wpr])
  have ok: "FeedForward_forward (mlp blk) x ! b ! t ! k =
          (\<Sum>j\<leftarrow>[0..<4 * E].
             weight (mlp_c_proj (mlp blk)) ! k ! j *
             (0.5 * hidden ! j * (1 + tanh (sqrt (2 / pi) * (hidden ! j + 0.044715 * hidden ! j ^ 3)))))
          + b_proj ! k"
    if "k < E" for k
  proof -
    have "FeedForward_forward (mlp blk) x ! b ! t ! k =
          (\<Sum>j\<leftarrow>[0..<4 * E]. weight (mlp_c_proj (mlp blk)) ! k ! j * map gelu_tanh hidden ! j) + b_proj ! k"
      using Linear_forward_entry(2)[OF wpr gl that] bpr by (simp add: ff)
    moreover have "map (\<lambda>j. weight (mlp_c_proj (mlp blk)) ! k ! j * map gelu_tanh hidden ! j) [0..<4 * E] =
          map (\<lambda>j. weight (mlp_c_proj (mlp blk)) ! k ! j *
             (0.5 * hidden ! j * (1 + tanh (sqrt (2 / pi) * (hidden ! j + 0.044715 * hidden ! j ^ 3)))))
            [0..<4 * E]"
      by (rule map_cong[OF refl]) (simp add: hl gelu_tanh_def)
    ultimately show ?thesis by simp
  qed
  have l1: "length (FeedForward_forward (mlp blk) x) = length x"
    by (simp add: FeedForward_forward_map)
  have l2: "length (FeedForward_forward (mlp blk) x ! b) = length (x ! b)"
    using assms(2) by (simp add: FeedForward_forward_map)
  show ?thesis
    apply (rule exI[of _ b_fc], rule exI[of _ b_proj], rule exI[of _ hidden])
    unfolding E_def[symmetric]
    using bfc bpr hl hj l1 l2 ol ok by blast
qed


theorem feed_forward_formula_witness:
  "\<exists>hidden.
     length hidden = 8 \<and>
     hidden ! 3 = (\<Sum>e\<leftarrow>[0..<2]. weight (c_fc (mlp example_block)) ! 3 ! e * [[[1, 2]]] ! 0 ! 0 ! e) + 0 \<and>
     length (FeedForward_forward (mlp example_block) [[[1, 2]]] ! 0 ! 0) = 2 \<and>
     FeedForward_forward (mlp example_block) [[[1, 2]]] ! 0 ! 0 ! 1 =
       (\<Sum>j\<leftarrow>[0..<8].
          weight (mlp_c_proj (mlp example_block)) ! 1 ! j *
          (0.5 * hidden ! j * (1 + tanh (sqrt (2 / pi) * (hidden ! j + 0.044715 * hidden ! j ^ 3)))))
       + 0"
proof -
  have wf: "wf_TransformerBlock example_config example_block"
    by (simp add: example_config_def example_block_def example_norm_def wf_TransformerBlock_def
        wf_mat_def wf_Linear_def wf_LayerNorm_def)
  have i: "0 < length [[[1, 2::real]]]" "0 < length ([[[1, 2::real]]] ! 0)"
          "length ([[[1, 2::real]]] ! 0 ! 0) = n_embd example_config"
    by (simp_all add: example_config_def)
  from feed_forward_formula[OF wf i] obtain b_fc b_proj hidden where
    b: "bias (c_fc (mlp example_block)) = Some b_fc" "bias (mlp_c_proj (mlp example_block)) = Some b_proj" and
    h: "length hidden = 4 * n_embd example_config"
       "\<forall>j < 4 * n_embd example_config.
        hidden ! j = (\<Sum>e\<leftarrow>[0..<n_embd example_config].
           weight (c_fc (mlp example_block)) ! j ! e * [[[1, 2]]] ! 0 ! 0 ! e) + b_fc ! j" and
    o: "length (FeedForward_forward (mlp example_block) [[[1, 2]]] ! 0 ! 0) = n_embd example_config"
       "\<forall>k < n_embd example_config.
        FeedForward_forward (mlp example_block) [[[1, 2]]] ! 0 ! 0 ! k =
          (\<Sum>j\<leftarrow>[0..<4 * n_embd example_config].
             weight (mlp_c_proj (mlp example_block)) ! k ! j *
             (0.5 * hidden ! j * (1 + tanh (sqrt (2 / pi) * (hidden ! j + 0.044715 * hidden ! j ^ 3)))))
          + b_proj ! k"
    by blast
  have E: "n_embd example_config = 2" "4 * n_embd example_config = 8"
    by (simp_all add: example_config_def)
  have bf: "b_fc ! 3 = 0" and bp: "b_proj ! 1 = 0"
    using b by (auto simp: example_block_def)
  have "hidden ! 3 = (\<Sum>e\<leftarrow>[0..<2]. weight (c_fc (mlp example_block)) ! 3 ! e * [[[1, 2]]] ! 0 ! 0 ! e) + 0"
    using h(2)[unfolded E, rule_format, of 3] bf by simp
  moreover have "FeedForward_forward (mlp example_block) [[[1, 2]]] ! 0 ! 0 ! 1 =
       (\<Sum>j\<leftarrow>[0..<8].
          weight (mlp_c_proj (mlp example_block)) ! 1 ! j *
          (0.5 * hidden ! j * (1 + tanh (sqrt (2 / pi) * (hidden ! j + 0.044715 * hidden ! j ^ 3)))))
       + 0"
    using o(2)[unfolded E, rule_format, of 1] bp by simp
  moreover have "length hidden = 8"
    using h(1) by (simp add: E)
  moreover have "length (FeedForward_forward (mlp example_block) [[[1, 2]]] ! 0 ! 0) = 2"
    using o(1) by (simp add: E)
  ultimately show ?thesis
    by blast
qed

section \<open>The pretrained-weight importer\<close>

lemma from_pretrained_keys:
  "from_pretrained model_type sd sd_hf =
     (if model_type \<notin> set [''gpt2'', ''gpt2-medium'', ''gpt2-large'', ''gpt2-xl'']
      then Inl AssertionError
      else if length (checkpoint_keys sd_hf) \<noteq> length (model_keys sd) then Inl AssertionError
      else (case copy_params sd_hf (checkpoint_keys sd_hf) sd of
              (sd', Some e) \<Rightarrow> Inl e
            | (sd', None) \<Rightarrow> Inr sd'))"
  by (simp add: from_pretrained_def checkpoint_keys_def model_keys_def Let_def)

lemma ex_keys: "checkpoint_keys example_sd_hf = [''transformer.wte.weight'', ''transformer.h.0.attn.c_attn.weight'']"
  by (simp add: checkpoint_keys_def example_sd_hf_def endswith_def suffix_to_prefix)

lemma ex_tr: "is_transposed ''transformer.h.0.attn.c_attn.weight''" "\<not> is_transposed ''transformer.wte.weight''"
  by (simp_all add: is_transposed_def transposed_def endswith_def suffix_to_prefix)


lemma tensor_t_ok:
  assumes "length (shape src) \<le> 2"
  shows "\<exists>st. tensor_t src = Inr st \<and> shape st = rev (shape src)"
proof (cases "shape src")
  case Nil
  then show ?thesis by (simp add: tensor_t_def)
next
  case (Cons r l1)
  note c1 = Cons
  show ?thesis
  proof (cases l1)
    case Nil
    then show ?thesis using c1 by (simp add: tensor_t_def)
  next
    case (Cons c l2)
    then have "l2 = []"
      using assms c1 by simp
    then show ?thesis using c1 Cons by (simp add: tensor_t_def)
  qed
qed

lemma tensor_t_fail:
  assumes "\<not> length (shape src) \<le> 2"
  shows "tensor_t src = Inl RuntimeError"
proof -
  obtain a b c l where "shape src = a # b # c # l"
    using assms by (cases "shape src" rule: list.exhaust; simp)
       (metis length_0_conv length_Suc_conv neq_Nil_conv not_less_eq_eq le0 Suc_le_mono numeral_2_eq_2 list.size(3,4))
  then show ?thesis by (simp add: tensor_t_def)
qed


lemma map_of_update_other:
  "k' \<noteq> k \<Longrightarrow> map_of (AList.update k v sd) k' = map_of sd k'"
  by (simp add: update_conv')

lemma importable_update:
  "k' \<noteq> k \<Longrightarrow> importable (AList.update k v sd) sd_hf k' = importable sd sd_hf k'"
  by (simp add: importable_def map_of_update_other)

lemma imported_update:
  "k' \<noteq> k \<Longrightarrow> imported (AList.update k v sd) sd_hf k' = imported sd sd_hf k'"
  by (simp add: imported_def map_of_update_other)

lemma keys_update:
  "map_of sd k = Some dst \<Longrightarrow> map fst (AList.update k v sd) = map fst sd"
  by (simp add: update_keys map_of_eq_None_iff[symmetric] del: map_of_eq_None_iff)

lemma copy_params_step:
  assumes "importable sd sd_hf k"
  shows "\<exists>v. imported sd sd_hf k = Some v \<and> map fst (AList.update k v sd) = map fst sd \<and>
             copy_params sd_hf (k # ks) sd = copy_params sd_hf ks (AList.update k v sd)"
proof -
  from assms obtain src dst where
    sd: "map_of sd_hf k = Some src" "map_of sd k = Some dst"
    by (auto simp: importable_def split: option.splits)
  show ?thesis
  proof (cases "is_transposed k")
    case True
    then have sh: "rev (shape src) = shape dst" "length (shape src) \<le> 2"
      using assms by (simp_all add: importable_def sd)
    from tensor_t_ok[OF sh(2)] obtain st where st: "tensor_t src = Inr st"
      by blast
    have "imported sd sd_hf k = Some (tensor_copy dst st)"
      by (simp add: imported_def sd True st)
    moreover have "copy_params sd_hf (k # ks) sd =
                   copy_params sd_hf ks (AList.update k (tensor_copy dst st) sd)"
      using True sh(1) by (simp add: sd st is_transposed_def)
    ultimately show ?thesis
      using keys_update[OF sd(2)] by blast
  next
    case False
    then have sh: "shape src = shape dst"
      using assms by (simp add: importable_def sd)
    have "imported sd sd_hf k = Some (tensor_copy dst src)"
      by (simp add: imported_def sd False)
    moreover have "copy_params sd_hf (k # ks) sd =
                   copy_params sd_hf ks (AList.update k (tensor_copy dst src) sd)"
      using False sh by (simp add: sd is_transposed_def)
    ultimately show ?thesis
      using keys_update[OF sd(2)] by blast
  qed
qed

lemma copy_params_stop:
  assumes "\<not> importable sd sd_hf k"
  shows "\<exists>e. copy_params sd_hf (k # ks) sd = (sd, Some e)"
proof (cases "map_of sd_hf k")
  case None
  then show ?thesis by simp
next
  case (Some src)
  note src = Some
  show ?thesis
  proof (cases "map_of sd k")
    case None
    then show ?thesis by (simp add: src)
  next
    case (Some dst)
    show ?thesis
    proof (cases "is_transposed k")
      case True
      then have "rev (shape src) \<noteq> shape dst \<or> \<not> length (shape src) \<le> 2"
        using assms by (simp add: importable_def src Some)
      then show ?thesis
        using True tensor_t_fail[of src]
        by (auto simp: src Some is_transposed_def)
    next
      case False
      then have "shape src \<noteq> shape dst"
        using assms by (simp add: importable_def src Some)
      then show ?thesis
        using False by (simp add: src Some is_transposed_def)
    qed
  qed
qed

lemma copy_params_ok:
  assumes "distinct ks" "\<forall>k \<in> set ks. importable sd sd_hf k"
  shows "\<exists>sd'. copy_params sd_hf ks sd = (sd', None) \<and> map fst sd' = map fst sd \<and>
           (\<forall>k. map_of sd' k = (if k \<in> set ks then imported sd sd_hf k else map_of sd k))"
  using assms
proof (induction ks arbitrary: sd)
  case Nil
  then show ?case by simp
next
  case (Cons k ks)
  from copy_params_step[of sd sd_hf k ks] Cons.prems(2) obtain v where
    v: "imported sd sd_hf k = Some v" "map fst (AList.update k v sd) = map fst sd"
       "copy_params sd_hf (k # ks) sd = copy_params sd_hf ks (AList.update k v sd)"
    by auto
  have notin: "k \<notin> set ks" and d: "distinct ks"
    using Cons.prems(1) by simp_all
  have rest: "\<forall>k' \<in> set ks. importable (AList.update k v sd) sd_hf k'"
  proof
    fix k' assume in_ks: "k' \<in> set ks"
    then have "k' \<noteq> k" using notin by auto
    then show "importable (AList.update k v sd) sd_hf k'"
      using Cons.prems(2) in_ks by (simp add: importable_update)
  qed
  from Cons.IH[OF d rest] obtain sd' where
    sd': "copy_params sd_hf ks (AList.update k v sd) = (sd', None)"
         "map fst sd' = map fst (AList.update k v sd)"
         "\<forall>k'. map_of sd' k' = (if k' \<in> set ks then imported (AList.update k v sd) sd_hf k'
                                 else map_of (AList.update k v sd) k')"
    by blast
  have "map_of sd' k' = (if k' \<in> set (k # ks) then imported sd sd_hf k' else map_of sd k')" for k'
  proof (cases "k' = k")
    case True
    then show ?thesis using sd'(3) notin v(1) by (simp add: update_conv')
  next
    case False
    then show ?thesis using sd'(3) by (simp add: imported_update map_of_update_other)
  qed
  then show ?case
    using v sd' by simp
qed

lemma copy_params_fail:
  assumes "distinct ks" "\<exists>k \<in> set ks. \<not> importable sd sd_hf k"
  shows "\<exists>sd' e. copy_params sd_hf ks sd = (sd', Some e)"
  using assms
proof (induction ks arbitrary: sd)
  case Nil
  then show ?case by simp
next
  case (Cons k ks)
  show ?case
  proof (cases "importable sd sd_hf k")
    case False
    then show ?thesis using copy_params_stop[OF False, of ks] by blast
  next
    case True
    from copy_params_step[OF True, of ks] obtain v where
      v: "copy_params sd_hf (k # ks) sd = copy_params sd_hf ks (AList.update k v sd)"
      by blast
    have notin: "k \<notin> set ks" and d: "distinct ks"
      using Cons.prems(1) by simp_all
    from Cons.prems(2) True obtain k' where k': "k' \<in> set ks" "\<not> importable sd sd_hf k'"
      by auto
    then have "k' \<noteq> k" using notin by auto
    then have "\<not> importable (AList.update k v sd) sd_hf k'"
      using k'(2) by (simp add: importable_update)
    then show ?thesis
      using Cons.IH[OF d] k'(1) v by auto
  qed
qed

lemma copy_params_first_bad:
  assumes "distinct (pre @ k # post)" "\<forall>k' \<in> set pre. importable sd sd_hf k'"
    and "\<not> importable sd sd_hf k"
  shows "\<exists>sd' e. copy_params sd_hf (pre @ k # post) sd = (sd', Some e) \<and>
           map fst sd' = map fst sd \<and>
           (\<forall>k'. map_of sd' k' = (if k' \<in> set pre then imported sd sd_hf k' else map_of sd k'))"
  using assms
proof (induction pre arbitrary: sd)
  case Nil
  from copy_params_stop[OF Nil.prems(3), of post] show ?case by auto
next
  case (Cons p pre)
  have imp: "importable sd sd_hf p"
    using Cons.prems(2) by simp
  from copy_params_step[OF imp, of "pre @ k # post"] obtain v where
    v: "imported sd sd_hf p = Some v" "map fst (AList.update p v sd) = map fst sd"
       "copy_params sd_hf (p # pre @ k # post) sd =
        copy_params sd_hf (pre @ k # post) (AList.update p v sd)"
    by auto
  have notin: "p \<notin> set pre" "p \<noteq> k" and d: "distinct (pre @ k # post)"
    using Cons.prems(1) by auto
  have rest: "\<forall>k' \<in> set pre. importable (AList.update p v sd) sd_hf k'"
  proof
    fix k' assume in_pre: "k' \<in> set pre"
    then have "k' \<noteq> p" using notin by auto
    then show "importable (AList.update p v sd) sd_hf k'"
      using Cons.prems(2) in_pre by (simp add: importable_update)
  qed
  have bad: "\<not> importable (AList.update p v sd) sd_hf k"
    using Cons.prems(3) notin(2) by (simp add: importable_update)
  from Cons.IH[OF d rest bad] obtain sd' e where
    sd': "copy_params sd_hf (pre @ k # post) (AList.update p v sd) = (sd', Some e)"
         "map fst sd' = map fst (AList.update p v sd)"
         "\<forall>k'. map_of sd' k' = (if k' \<in> set pre then imported (AList.update p v sd) sd_hf k'
                                 else map_of (AList.update p v sd) k')"
    by blast
  have "map_of sd' k' = (if k' \<in> set (p # pre) then imported sd sd_hf k' else map_of sd k')" for k'
  proof (cases "k' = p")
    case True
    then show ?thesis using sd'(3) notin(1) v(1) by (simp add: update_conv')
  next
    case False
    then show ?thesis using sd'(3) by (simp add: imported_update map_of_update_other)
  qed
  then show ?case
    using v sd' by simp
qed


lemma length_concat_chunks:
  "(\<And>j. j < c \<Longrightarrow> length (f j) = r) \<Longrightarrow> length (concat (map f [0..<c])) = c * r"
  by (induction c) simp_all

lemma concat_rect_nth:
  assumes "\<And>j. j < c \<Longrightarrow> length (f j) = r" "j < c" "i < r"
  shows "concat (map f [0..<c]) ! (j * r + i) = f j ! i"
  using assms
proof (induction c)
  case 0
  then show ?case by simp
next
  case (Suc c)
  have len: "length (concat (map f [0..<c])) = c * r"
    using Suc.prems(1) by (intro length_concat_chunks) simp
  show ?case
  proof (cases "j < c")
    case True
    then have "j * r + i < c * r"
      using chunk_bound[OF True, of r] Suc.prems(3) by simp
    then show ?thesis
      using Suc.IH[OF _ True Suc.prems(3)] Suc.prems(1) by (simp add: nth_append len)
  next
    case False
    then have "j = c" using Suc.prems(2) by simp
    then show ?thesis by (simp add: nth_append len)
  qed
qed

lemma tensor_t_matrix:
  assumes "shape a = [r, c]"
  shows "\<exists>st. tensor_t a = Inr st \<and> shape st = [c, r] \<and> length (data st) = c * r \<and>
           (\<forall>i j. i < r \<and> j < c \<longrightarrow> data st ! (j * r + i) = data a ! (i * c + j))"
proof -
  define st where "st = \<lparr>shape = [c, r],
               data = concat (map (\<lambda>j. map (\<lambda>i. data a ! (i * c + j)) [0..<r]) [0..<c])\<rparr>"
  have t: "tensor_t a = Inr st"
    by (simp add: tensor_t_def assms st_def)
  have "data st ! (j * r + i) = data a ! (i * c + j)" if "i < r" "j < c" for i j
    using concat_rect_nth[where f = "\<lambda>j. map (\<lambda>i. data a ! (i * c + j)) [0..<r]", OF _ that(2,1)] that(1)
    by (simp add: st_def)
  moreover have "length (data st) = c * r"
    unfolding st_def by (simp add: length_concat_chunks)
  ultimately show ?thesis
    using t by (auto simp: st_def)
qed

lemma tensor_copy_same_shape: "shape dst = shape src \<Longrightarrow> tensor_copy dst src = src"
  by (simp add: tensor_copy_def)

lemma distinct_checkpoint_keys:
  "distinct (map fst sd_hf) \<Longrightarrow> distinct (checkpoint_keys sd_hf)"
  by (simp add: checkpoint_keys_def)

lemma imported_value:
  assumes "importable sd sd_hf k"
  shows "\<exists>src dst. map_of sd_hf k = Some src \<and> map_of sd k = Some dst \<and>
           (if is_transposed k
            then (\<exists>st. tensor_t src = Inr st \<and> shape st = shape dst \<and> imported sd sd_hf k = Some st)
            else shape src = shape dst \<and> imported sd sd_hf k = Some src)"
proof -
  from assms obtain src dst where
    sd: "map_of sd_hf k = Some src" "map_of sd k = Some dst"
    by (auto simp: importable_def split: option.splits)
  show ?thesis
  proof (cases "is_transposed k")
    case True
    then have sh: "rev (shape src) = shape dst" "length (shape src) \<le> 2"
      using assms by (simp_all add: importable_def sd)
    from tensor_t_ok[OF sh(2)] obtain st where st: "tensor_t src = Inr st" "shape st = rev (shape src)"
      by blast
    have "imported sd sd_hf k = Some st"
      using st sh(1) by (simp add: imported_def sd True tensor_copy_same_shape)
    then show ?thesis using True sd st sh(1) by simp
  next
    case False
    then have sh: "shape src = shape dst"
      using assms by (simp add: importable_def sd)
    have "imported sd sd_hf k = Some src"
      using sh by (simp add: imported_def sd False tensor_copy_same_shape)
    then show ?thesis using False sd sh by simp
  qed
qed

lemma from_pretrained_ok:
  assumes "model_type \<in> set [''gpt2'', ''gpt2-medium'', ''gpt2-large'', ''gpt2-xl'']"
    and "distinct (map fst sd_hf)"
    and "length (checkpoint_keys sd_hf) = length (model_keys sd)"
    and "\<forall>k \<in> set (checkpoint_keys sd_hf). importable sd sd_hf k"
  shows "\<exists>sd'. from_pretrained model_type sd sd_hf = Inr sd' \<and> map fst sd' = map fst sd \<and>
           (\<forall>k. map_of sd' k =
                  (if k \<in> set (checkpoint_keys sd_hf) then imported sd sd_hf k else map_of sd k))"
proof -
  from copy_params_ok[OF distinct_checkpoint_keys[OF assms(2)] assms(4)] obtain sd' where
    "copy_params sd_hf (checkpoint_keys sd_hf) sd = (sd', None)" "map fst sd' = map fst sd"
    "\<forall>k. map_of sd' k = (if k \<in> set (checkpoint_keys sd_hf) then imported sd sd_hf k else map_of sd k)"
    by blast
  then show ?thesis
    using assms(1,3) by (simp add: from_pretrained_keys)
qed

lemma from_pretrained_fail:
  assumes "distinct (map fst sd_hf)"
    and "length (checkpoint_keys sd_hf) \<noteq> length (model_keys sd) \<or>
         (\<exists>k \<in> set (checkpoint_keys sd_hf). \<not> importable sd sd_hf k)"
  shows "\<exists>e. from_pretrained model_type sd sd_hf = Inl e"
proof (cases "model_type \<in> set [''gpt2'', ''gpt2-medium'', ''gpt2-large'', ''gpt2-xl''] \<and>
              length (checkpoint_keys sd_hf) = length (model_keys sd)")
  case False
  then show ?thesis by (auto simp: from_pretrained_keys)
next
  case True
  then have "\<exists>k \<in> set (checkpoint_keys sd_hf). \<not> importable sd sd_hf k"
    using assms(2) by simp
  from copy_params_fail[OF distinct_checkpoint_keys[OF assms(1)] this] obtain sd' e where
    "copy_params sd_hf (checkpoint_keys sd_hf) sd = (sd', Some e)"
    by blast
  then show ?thesis
    using True by (simp add: from_pretrained_keys)
qed

lemma transposed_names:
  "filter is_transposed (block_param_names p) =
     map (\<lambda>n. p @ n)
       [''attn.c_attn.weight'', ''attn.c_proj.weight'', ''mlp.c_fc.weight'', ''mlp.c_proj.weight'']"
  "filter is_transposed top_param_names = []"
  by (simp_all add: block_param_names_def top_param_names_def is_transposed_def transposed_def
      endswith_def suffix_to_prefix)

text \<open>
  Claim C6. For a preset name and a checkpoint whose parameter names (mask buffers dropped
  on both sides) are as many as the model's and are all importable (present in the model,
  shapes agreeing after the transpose rule), the import succeeds: a name ending in one of
  the four projection names holds the transpose of the checkpoint's tensor, every other
  checkpoint name holds the checkpoint's tensor as it is, and everything else in the
  model (the mask buffers) is untouched. If the counts differ or some name is not
  importable the import raises. The transpose puts entry \<open>(i, j)\<close> of the checkpoint matrix at
  \<open>(j, i)\<close>. Among the model's own parameter names the rule selects exactly \<open>attn.c_attn\<close>,
  \<open>attn.c_proj\<close>, \<open>mlp.c_fc\<close> and \<open>mlp.c_proj\<close> weights of every block.
\<close>

theorem from_pretrained_import:
  assumes "model_type \<in> set [''gpt2'', ''gpt2-medium'', ''gpt2-large'', ''gpt2-xl'']"
    and "distinct (map fst sd_hf)"
  shows "(length (checkpoint_keys sd_hf) = length (model_keys sd) \<and>
          (\<forall>k \<in> set (checkpoint_keys sd_hf). importable sd sd_hf k) \<longrightarrow>
            (\<exists>sd'. from_pretrained model_type sd sd_hf = Inr sd' \<and> map fst sd' = map fst sd \<and>
               (\<forall>k \<in> set (checkpoint_keys sd_hf).
                  \<exists>src dst. map_of sd_hf k = Some src \<and> map_of sd k = Some dst \<and>
                    (if is_transposed k
                     then (\<exists>st. tensor_t src = Inr st \<and> shape st = shape dst \<and> map_of sd' k = Some st)
                     else shape src = shape dst \<and> map_of sd' k = Some src)) \<and>
               (\<forall>k. k \<notin> set (checkpoint_keys sd_hf) \<longrightarrow> map_of sd' k = map_of sd k))) \<and>
         (length (checkpoint_keys sd_hf) \<noteq> length (model_keys sd) \<or>
          (\<exists>k \<in> set (checkpoint_keys sd_hf). \<not> importable sd sd_hf k) \<longrightarrow>
            (\<exists>e. from_pretrained model_type sd sd_hf = Inl e)) \<and>
         (\<forall>a r c. shape a = [r, c] \<longrightarrow>
            (\<exists>st. tensor_t a = Inr st \<and> shape st = [c, r] \<and> length (data st) = c * r \<and>
               (\<forall>i j. i < r \<and> j < c \<longrightarrow> data st ! (j * r + i) = data a ! (i * c + j)))) \<and>
         (\<forall>p. filter is_transposed (block_param_names p) =
                map (\<lambda>n. p @ n)
                  [''attn.c_attn.weight'', ''attn.c_proj.weight'', ''mlp.c_fc.weight'', ''mlp.c_proj.weight'']) \<and>
         filter is_transposed top_param_names = []"
proof (intro conjI impI allI)
  assume h: "length (checkpoint_keys sd_hf) = length (model_keys sd) \<and>
          (\<forall>k \<in> set (checkpoint_keys sd_hf). importable sd sd_hf k)"
  from from_pretrained_ok[OF assms] h obtain sd' where
    r: "from_pretrained model_type sd sd_hf = Inr sd'" "map fst sd' = map fst sd"
       "\<forall>k. map_of sd' k =
                  (if k \<in> set (checkpoint_keys sd_hf) then imported sd sd_hf k else map_of sd k)"
    by blast
  have each: "\<exists>src dst. map_of sd_hf k = Some src \<and> map_of sd k = Some dst \<and>
                    (if is_transposed k
                     then (\<exists>st. tensor_t src = Inr st \<and> shape st = shape dst \<and> map_of sd' k = Some st)
                     else shape src = shape dst \<and> map_of sd' k = Some src)"
    if "k \<in> set (checkpoint_keys sd_hf)" for k
  proof -
    have imp: "importable sd sd_hf k" using h that by blast
    have m: "map_of sd' k = imported sd sd_hf k" using r(3) that by simp
    show ?thesis unfolding m by (rule imported_value[OF imp])
  qed
  show "\<exists>sd'. from_pretrained model_type sd sd_hf = Inr sd' \<and> map fst sd' = map fst sd \<and>
               (\<forall>k \<in> set (checkpoint_keys sd_hf).
                  \<exists>src dst. map_of sd_hf k = Some src \<and> map_of sd k = Some dst \<and>
                    (if is_transposed k
                     then (\<exists>st. tensor_t src = Inr st \<and> shape st = shape dst \<and> map_of sd' k = Some st)
                     else shape src = shape dst \<and> map_of sd' k = Some src)) \<and>
               (\<forall>k. k \<notin> set (checkpoint_keys sd_hf) \<longrightarrow> map_of sd' k = map_of sd k)"
    apply (rule exI[of _ sd'])
    using r each by simp
next
  assume "length (checkpoint_keys sd_hf) \<noteq> length (model_keys sd) \<or>
          (\<exists>k \<in> set (checkpoint_keys sd_hf). \<not> importable sd sd_hf k)"
  then show "\<exists>e. from_pretrained model_type sd sd_hf = Inl e"
    by (rule from_pretrained_fail[OF assms(2)])
next
  fix a :: tensor and r c assume "shape a = [r, c]"
  then show "\<exists>st. tensor_t a = Inr st \<and> shape st = [c, r] \<and> length (data st) = c * r \<and>
               (\<forall>i j. i < r \<and> j < c \<longrightarrow> data st ! (j * r + i) = data a ! (i * c + j))"
    by (rule tensor_t_matrix)
next
  fix p show "filter is_transposed (block_param_names p) =
                map (\<lambda>n. p @ n)
                  [''attn.c_attn.weight'', ''attn.c_proj.weight'', ''mlp.c_fc.weight'', ''mlp.c_proj.weight'']"
    by (rule transposed_names(1))
next
  show "filter is_transposed top_param_names = []"
    by (rule transposed_names(2))
qed

text \<open>
  Claim C7, as the code has it. When the parameter counts differ, or some checkpoint
  parameter is not importable (its name is missing in the model or its shape disagrees
  after the transpose rule), \<open>from_pretrained\<close> ends with an exception and hands the caller
  no model; a count mismatch is an \<open>AssertionError\<close> raised before the loop. Whenever it does
  return a model, every checkpoint parameter has been imported into it. The copies are
  not atomic, though: when the first parameter that is not importable is reached, every
  parameter before it in checkpoint order already holds the imported value in the model
  under construction, and every other parameter still holds its prior value. That model
  is local to the method and is dropped with the exception.
\<close>

theorem from_pretrained_failure:
  assumes "distinct (map fst sd_hf)"
  shows "(length (checkpoint_keys sd_hf) \<noteq> length (model_keys sd) \<longrightarrow>
            from_pretrained model_type sd sd_hf = Inl AssertionError) \<and>
         ((\<exists>k \<in> set (checkpoint_keys sd_hf). \<not> importable sd sd_hf k) \<longrightarrow>
            (\<exists>e. from_pretrained model_type sd sd_hf = Inl e) \<and>
            (\<exists>pre k post. checkpoint_keys sd_hf = pre @ k # post \<and>
               (\<forall>k' \<in> set pre. importable sd sd_hf k') \<and> \<not> importable sd sd_hf k)) \<and>
         (\<forall>pre k post.
            checkpoint_keys sd_hf = pre @ k # post \<and>
            (\<forall>k' \<in> set pre. importable sd sd_hf k') \<and> \<not> importable sd sd_hf k \<longrightarrow>
              (\<exists>sd' e. copy_params sd_hf (checkpoint_keys sd_hf) sd = (sd', Some e) \<and>
                 map fst sd' = map fst sd \<and>
                 (\<forall>k'. map_of sd' k' =
                    (if k' \<in> set pre then imported sd sd_hf k' else map_of sd k')))) \<and>
         (\<forall>sd'. from_pretrained model_type sd sd_hf = Inr sd' \<longrightarrow>
            length (checkpoint_keys sd_hf) = length (model_keys sd) \<and>
            map fst sd' = map fst sd \<and>
            (\<forall>k \<in> set (checkpoint_keys sd_hf).
               importable sd sd_hf k \<and> map_of sd' k = imported sd sd_hf k) \<and>
            (\<forall>k. k \<notin> set (checkpoint_keys sd_hf) \<longrightarrow> map_of sd' k = map_of sd k))"
proof -
  have count: "length (checkpoint_keys sd_hf) \<noteq> length (model_keys sd) \<longrightarrow>
            from_pretrained model_type sd sd_hf = Inl AssertionError"
    by (simp add: from_pretrained_keys)
  have fails: "(\<exists>e. from_pretrained model_type sd sd_hf = Inl e) \<and>
            (\<exists>pre k post. checkpoint_keys sd_hf = pre @ k # post \<and>
               (\<forall>k' \<in> set pre. importable sd sd_hf k') \<and> \<not> importable sd sd_hf k)"
    if bad: "\<exists>k \<in> set (checkpoint_keys sd_hf). \<not> importable sd sd_hf k"
  proof -
    have "\<exists>e. from_pretrained model_type sd sd_hf = Inl e"
      using from_pretrained_fail[OF assms, of sd model_type] bad by blast
    moreover from split_list_first_prop[OF bad] obtain pre k post where
      "checkpoint_keys sd_hf = pre @ k # post" "\<not> importable sd sd_hf k"
      "\<forall>k' \<in> set pre. \<not> \<not> importable sd sd_hf k'"
      by blast
    then have "\<exists>pre k post. checkpoint_keys sd_hf = pre @ k # post \<and>
               (\<forall>k' \<in> set pre. importable sd sd_hf k') \<and> \<not> importable sd sd_hf k"
      by auto
    ultimately show ?thesis by blast
  qed
  have partial: "\<exists>sd' e. copy_params sd_hf (checkpoint_keys sd_hf) sd = (sd', Some e) \<and>
                 map fst sd' = map fst sd \<and>
                 (\<forall>k'. map_of sd' k' =
                    (if k' \<in> set pre then imported sd sd_hf k' else map_of sd k'))"
    if h: "checkpoint_keys sd_hf = pre @ k # post \<and>
            (\<forall>k' \<in> set pre. importable sd sd_hf k') \<and> \<not> importable sd sd_hf k" for pre k post
  proof -
    have d: "distinct (pre @ k # post)"
      using distinct_checkpoint_keys[OF assms] h by simp
    from copy_params_first_bad[OF d] h show ?thesis by simp
  qed
  have complete: "length (checkpoint_keys sd_hf) = length (model_keys sd) \<and>
            map fst sd' = map fst sd \<and>
            (\<forall>k \<in> set (checkpoint_keys sd_hf).
               importable sd sd_hf k \<and> map_of sd' k = imported sd sd_hf k) \<and>
            (\<forall>k. k \<notin> set (checkpoint_keys sd_hf) \<longrightarrow> map_of sd' k = map_of sd k)"
    if ok: "from_pretrained model_type sd sd_hf = Inr sd'" for sd'
  proof -
    have good: "length (checkpoint_keys sd_hf) = length (model_keys sd) \<and>
                (\<forall>k \<in> set (checkpoint_keys sd_hf). importable sd sd_hf k)"
    proof (rule ccontr)
      assume "\<not> (length (checkpoint_keys sd_hf) = length (model_keys sd) \<and>
                (\<forall>k \<in> set (checkpoint_keys sd_hf). importable sd sd_hf k))"
      then have "length (checkpoint_keys sd_hf) \<noteq> length (model_keys sd) \<or>
            (\<exists>k \<in> set (checkpoint_keys sd_hf). \<not> importable sd sd_hf k)"
        by blast
      from from_pretrained_fail[OF assms this, of model_type] show False
        using ok by simp
    qed
    have mt: "model_type \<in> set [''gpt2'', ''gpt2-medium'', ''gpt2-large'', ''gpt2-xl'']"
      using ok by (auto simp: from_pretrained_keys split: if_splits)
    from from_pretrained_ok[OF mt assms] good obtain sd2 where
      r: "from_pretrained model_type sd sd_hf = Inr sd2" "map fst sd2 = map fst sd"
         "\<forall>k. map_of sd2 k =
                    (if k \<in> set (checkpoint_keys sd_hf) then imported sd sd_hf k else map_of sd k)"
      by blast
    have same: "sd2 = sd'" using r(1) ok by simp
    show ?thesis
      using good r(2,3) unfolding same by simp
  qed
  show ?thesis
    using count fails partial complete by blast
qed


lemma example_keys:
  "checkpoint_keys example_sd_hf = [''transformer.wte.weight'', ''transformer.h.0.attn.c_attn.weight'']"
  "checkpoint_keys example_sd_hf_bad = [''transformer.wte.weight'', ''transformer.h.0.attn.c_attn.weight'']"
  "model_keys example_sd = [''transformer.wte.weight'', ''transformer.h.0.attn.c_attn.weight'']"
  by (simp_all add: checkpoint_keys_def model_keys_def example_sd_hf_def example_sd_hf_bad_def
      example_sd_def endswith_def suffix_to_prefix)

lemma example_transposed:
  "is_transposed ''transformer.h.0.attn.c_attn.weight''"
  "\<not> is_transposed ''transformer.wte.weight''"
  by (simp_all add: is_transposed_def transposed_def endswith_def suffix_to_prefix)

lemma example_t:
  "tensor_t \<lparr>shape = [2, 3], data = [1, 2, 3, 4, 5, 6]\<rparr> =
     Inr \<lparr>shape = [3, 2], data = [1, 4, 2, 5, 3, 6]\<rparr>"
proof -
  have u: "[0..<3] = [0, 1, 2]" "[0..<2] = [0, 1]"
    by (simp_all add: upt_rec)
  show ?thesis by (simp add: tensor_t_def u)
qed

lemma example_importable:
  "importable example_sd example_sd_hf ''transformer.wte.weight''"
  "importable example_sd example_sd_hf ''transformer.h.0.attn.c_attn.weight''"
  "importable example_sd example_sd_hf_bad ''transformer.wte.weight''"
  "\<not> importable example_sd example_sd_hf_bad ''transformer.h.0.attn.c_attn.weight''"
  by (simp_all add: importable_def example_transposed example_sd_def example_sd_hf_def
      example_sd_hf_bad_def)

theorem from_pretrained_import_witness:
  "\<exists>sd'. from_pretrained ''gpt2'' example_sd example_sd_hf = Inr sd' \<and>
      map fst sd' = map fst example_sd \<and>
      map_of sd' ''transformer.wte.weight'' = Some \<lparr>shape = [2, 2], data = [1, 2, 3, 4]\<rparr> \<and>
      map_of sd' ''transformer.h.0.attn.c_attn.weight'' =
        Some \<lparr>shape = [3, 2], data = [1, 4, 2, 5, 3, 6]\<rparr> \<and>
      map_of sd' ''transformer.h.0.attn.bias'' = map_of example_sd ''transformer.h.0.attn.bias''"
proof -
  have mt: "''gpt2'' \<in> set [''gpt2'', ''gpt2-medium'', ''gpt2-large'', ''gpt2-xl'']"
    by simp
  have d: "distinct (map fst example_sd_hf)"
    by (simp add: example_sd_hf_def)
  have pre: "length (checkpoint_keys example_sd_hf) = length (model_keys example_sd) \<and>
          (\<forall>k \<in> set (checkpoint_keys example_sd_hf). importable example_sd example_sd_hf k)"
    unfolding example_keys by (simp add: example_importable)
  note inst = from_pretrained_import[OF mt d, of example_sd, THEN conjunct1, THEN mp, OF pre]
  then obtain sd' where
    r: "from_pretrained ''gpt2'' example_sd example_sd_hf = Inr sd'" "map fst sd' = map fst example_sd" and
    each: "\<forall>k \<in> set (checkpoint_keys example_sd_hf).
                  \<exists>src dst. map_of example_sd_hf k = Some src \<and> map_of example_sd k = Some dst \<and>
                    (if is_transposed k
                     then (\<exists>st. tensor_t src = Inr st \<and> shape st = shape dst \<and> map_of sd' k = Some st)
                     else shape src = shape dst \<and> map_of sd' k = Some src)" and
    other: "\<forall>k. k \<notin> set (checkpoint_keys example_sd_hf) \<longrightarrow> map_of sd' k = map_of example_sd k"
    by blast
  have 1: "map_of sd' ''transformer.wte.weight'' = Some \<lparr>shape = [2, 2], data = [1, 2, 3, 4]\<rparr>"
    using each[unfolded example_keys, rule_format, of "''transformer.wte.weight''"]
    by (auto simp: example_transposed example_sd_hf_def)
  have 2: "map_of sd' ''transformer.h.0.attn.c_attn.weight'' =
        Some \<lparr>shape = [3, 2], data = [1, 4, 2, 5, 3, 6]\<rparr>"
    using each[unfolded example_keys, rule_format, of "''transformer.h.0.attn.c_attn.weight''"]
    by (auto simp: example_transposed example_sd_hf_def example_t)
  have 3: "map_of sd' ''transformer.h.0.attn.bias'' = map_of example_sd ''transformer.h.0.attn.bias''"
    using other[unfolded example_keys, rule_format, of "''transformer.h.0.attn.bias''"]
    by simp
  show ?thesis
    using r 1 2 3 by blast
qed

lemma copy_params_partial_example:
  "copy_params example_sd_hf_bad (checkpoint_keys example_sd_hf_bad) example_sd =
     ([(''transformer.wte.weight'', \<lparr>shape = [2, 2], data = [1, 2, 3, 4]\<rparr>),
       (''transformer.h.0.attn.c_attn.weight'', \<lparr>shape = [3, 2], data = [0, 0, 0, 0, 0, 0]\<rparr>),
       (''transformer.h.0.attn.bias'', \<lparr>shape = [1, 1, 2, 2], data = [1, 0, 1, 1]\<rparr>)],
      Some AssertionError)"
  unfolding example_keys
  using example_transposed
  by (simp add: example_sd_hf_bad_def example_sd_def is_transposed_def tensor_copy_def)

theorem from_pretrained_failure_witness:
  "(\<exists>e. from_pretrained ''gpt2'' example_sd example_sd_hf_bad = Inl e) \<and>
   (\<exists>sd' e. copy_params example_sd_hf_bad (checkpoint_keys example_sd_hf_bad) example_sd =
        (sd', Some e) \<and>
      map fst sd' = map fst example_sd \<and>
      map_of sd' ''transformer.wte.weight'' =
        imported example_sd example_sd_hf_bad ''transformer.wte.weight'' \<and>
      map_of sd' ''transformer.h.0.attn.c_attn.weight'' =
        map_of example_sd ''transformer.h.0.attn.c_attn.weight'')"
proof -
  have d: "distinct (map fst example_sd_hf_bad)"
    by (simp add: example_sd_hf_bad_def)
  note inst = from_pretrained_failure[OF d, of example_sd "''gpt2''"]
  have bad: "\<exists>k \<in> set (checkpoint_keys example_sd_hf_bad). \<not> importable example_sd example_sd_hf_bad k"
    unfolding example_keys by (simp add: example_importable)
  have 1: "\<exists>e. from_pretrained ''gpt2'' example_sd example_sd_hf_bad = Inl e"
    using inst[THEN conjunct2, THEN conjunct1, THEN mp, OF bad] by (rule conjunct1)
  have split: "checkpoint_keys example_sd_hf_bad =
                 [''transformer.wte.weight''] @ ''transformer.h.0.attn.c_attn.weight'' # [] \<and>
               (\<forall>k' \<in> set [''transformer.wte.weight'']. importable example_sd example_sd_hf_bad k') \<and>
               \<not> importable example_sd example_sd_hf_bad ''transformer.h.0.attn.c_attn.weight''"
    unfolding example_keys by (simp add: example_importable)
  from inst[THEN conjunct2, THEN conjunct2, THEN conjunct1, THEN spec, THEN spec, THEN spec,
            THEN mp, OF split]
  obtain sd' e where
    r: "copy_params example_sd_hf_bad (checkpoint_keys example_sd_hf_bad) example_sd = (sd', Some e)"
       "map fst sd' = map fst example_sd"
       "\<forall>k'. map_of sd' k' =
          (if k' \<in> set [''transformer.wte.weight''] then imported example_sd example_sd_hf_bad k'
           else map_of example_sd k')"
    by blast
  have "map_of sd' ''transformer.wte.weight'' =
        imported example_sd example_sd_hf_bad ''transformer.wte.weight''"
    using r(3) by simp
  moreover have "map_of sd' ''transformer.h.0.attn.c_attn.weight'' =
        map_of example_sd ''transformer.h.0.attn.c_attn.weight''"
    using r(3) by simp
  ultimately show ?thesis
    using 1 r(1,2) by blast
qed

text \<open>
  The claim as stated (after a failed import every parameter still holds the value it had
  before) does not hold for the model that the import was filling: on the checkpoint
  \<open>example_sd_hf_bad\<close> the embedding table is already overwritten when the shape assertion
  of the second parameter fails.
\<close>

theorem from_pretrained_partial_counterexample:
  "from_pretrained ''gpt2'' example_sd example_sd_hf_bad = Inl AssertionError \<and>
   (\<exists>sd'. copy_params example_sd_hf_bad (checkpoint_keys example_sd_hf_bad) example_sd =
        (sd', Some AssertionError) \<and>
      map_of example_sd ''transformer.wte.weight'' = Some \<lparr>shape = [2, 2], data = [0, 0, 0, 0]\<rparr> \<and>
      map_of sd' ''transformer.wte.weight'' = Some \<lparr>shape = [2, 2], data = [1, 2, 3, 4]\<rparr>)"
proof -
  have "from_pretrained ''gpt2'' example_sd example_sd_hf_bad = Inl AssertionError"
    unfolding from_pretrained_keys copy_params_partial_example
    by (simp add: example_keys)
  moreover have "map_of example_sd ''transformer.wte.weight'' = Some \<lparr>shape = [2, 2], data = [0, 0, 0, 0]\<rparr>"
    by (simp add: example_sd_def)
  ultimately show ?thesis
    using copy_params_partial_example by simp
qed

end
